theory Spec2Isabelle
  imports Complex_Main "HOL-Library.AList" "HOL-Library.Log_Nat"
begin

section \<open>JavaScript values used by the stock analysis agent\<close>

text \<open>
  Strings are lists of code units in the range 0..255. An exception is a value:
  every function of the source that can throw returns a sum whose left injection is
  the thrown error.
\<close>

datatype js_error = Error string | TypeError string | SyntaxError string

fun message :: "js_error \<Rightarrow> string" where
  "message (Error m) = m"
| "message (TypeError m) = m"
| "message (SyntaxError m) = m"

text \<open>\<^verbatim>\<open>String(n)\<close> for a non-negative integer: its decimal digits.\<close>

definition digit_char :: "nat \<Rightarrow> char" where
  "digit_char d = char_of (48 + d)"

fun nat_to_string :: "nat \<Rightarrow> string" where
  "nat_to_string n =
     (if n < 10 then [digit_char n] else nat_to_string (n div 10) @ [digit_char (n mod 10)])"

declare nat_to_string.simps [simp del]

section \<open>Numbers\<close>

text \<open>
  A JavaScript number is \<open>NaN\<close>, an infinity, or a finite binary64 value, held as the
  rational it denotes. The sign of zero is not distinguished.
\<close>

datatype jsnum = NaN | PosInfinity | NegInfinity | Fin rat

definition round_half_even :: "rat \<Rightarrow> int" where
  "round_half_even x =
     (let f = \<lfloor>x\<rfloor>; r = x - of_int f
      in if r < 1 / 2 then f else if 1 / 2 < r then f + 1 else if even f then f else f + 1)"

text \<open>\<open>ilog2 x\<close> is the integer \<open>k\<close> with \<open>2 ^ k \<le> x < 2 ^ (k + 1)\<close>, for positive \<open>x\<close>.\<close>

definition ilog2 :: "rat \<Rightarrow> int" where
  "ilog2 x =
     (let (n, d) = quotient_of x; k = bitlen n - bitlen d
      in if 2 powi k \<le> x then k else k - 1)"

text \<open>
  Rounding of an exact result to binary64: the multiple \<open>m * q\<close> of the spacing \<open>q\<close> of the
  doubles around it (53 significant bits, fewer below the smallest normal number), ties
  to even. The result overflows to an infinity when it reaches \<open>2 ^ 1024\<close>, that is, when
  the exponent \<open>e\<close> is 1024 or more, or is 1023 and \<open>m\<close> was rounded up to \<open>2 ^ 53\<close>.
\<close>

definition to_double :: "rat \<Rightarrow> jsnum" where
  "to_double x =
     (if x = 0 then Fin 0
      else
        let a = \<bar>x\<bar>; e = max (ilog2 a) (- 1022); q = 2 powi (e - 52);
            m = round_half_even (a / q)
        in if 1024 \<le> e \<or> (e = 1023 \<and> m = 9007199254740992)
           then (if 0 < x then PosInfinity else NegInfinity)
           else Fin (if 0 < x then of_int m * q else - (of_int m * q)))"

fun js_div :: "jsnum \<Rightarrow> jsnum \<Rightarrow> jsnum" where
  "js_div (Fin x) (Fin y) =
     (if y = 0 then (if x = 0 then NaN else if 0 < x then PosInfinity else NegInfinity)
      else to_double (x / y))"
| "js_div (Fin x) PosInfinity = Fin 0"
| "js_div (Fin x) NegInfinity = Fin 0"
| "js_div PosInfinity (Fin y) = (if 0 \<le> y then PosInfinity else NegInfinity)"
| "js_div NegInfinity (Fin y) = (if 0 \<le> y then NegInfinity else PosInfinity)"
| "js_div _ _ = NaN"

fun js_mul :: "jsnum \<Rightarrow> jsnum \<Rightarrow> jsnum" where
  "js_mul (Fin x) (Fin y) = to_double (x * y)"
| "js_mul (Fin x) PosInfinity = (if x = 0 then NaN else if 0 < x then PosInfinity else NegInfinity)"
| "js_mul (Fin x) NegInfinity = (if x = 0 then NaN else if 0 < x then NegInfinity else PosInfinity)"
| "js_mul PosInfinity (Fin y) = (if y = 0 then NaN else if 0 < y then PosInfinity else NegInfinity)"
| "js_mul NegInfinity (Fin y) = (if y = 0 then NaN else if 0 < y then NegInfinity else PosInfinity)"
| "js_mul PosInfinity PosInfinity = PosInfinity"
| "js_mul NegInfinity NegInfinity = PosInfinity"
| "js_mul PosInfinity NegInfinity = NegInfinity"
| "js_mul NegInfinity PosInfinity = NegInfinity"
| "js_mul _ _ = NaN"

definition int_to_string :: "int \<Rightarrow> string" where
  "int_to_string i =
     (if i < 0 then CHR ''-'' # nat_to_string (nat (- i)) else nat_to_string (nat i))"

text \<open>
  The digits after the decimal point of \<open>r\<close> (\<open>0 \<le> r < 1\<close>), by long division, at most
  \<open>n\<close> of them.
\<close>

fun frac_digits :: "nat \<Rightarrow> rat \<Rightarrow> string" where
  "frac_digits 0 r = []"
| "frac_digits (Suc n) r =
     (if r = 0 then []
      else let d = \<lfloor>10 * r\<rfloor> in digit_char (nat d) # frac_digits n (10 * r - of_int d))"

text \<open>
  \<^verbatim>\<open>String(x)\<close>. An integer prints as its decimal digits, as JavaScript prints it below
  ten to the 21st; any other finite value prints as integer part, point and fraction
  digits. The exponent notation of very large and very small magnitudes and the choice
  of the shortest digit string for a fraction are not modelled.
\<close>

fun Number_toString :: "jsnum \<Rightarrow> string" where
  "Number_toString NaN = ''NaN''"
| "Number_toString PosInfinity = ''Infinity''"
| "Number_toString NegInfinity = ''-Infinity''"
| "Number_toString (Fin x) =
     (if x = of_int \<lfloor>x\<rfloor> then int_to_string \<lfloor>x\<rfloor>
      else (if x < 0 then ''-'' else []) @ nat_to_string (nat \<lfloor>\<bar>x\<bar>\<rfloor>) @ ''.'' @
           frac_digits 20 (\<bar>x\<bar> - of_int \<lfloor>\<bar>x\<bar>\<rfloor>))"

text \<open>
  \<^verbatim>\<open>x.toFixed(f)\<close>: for a finite \<open>x\<close> below ten to the 21st in magnitude, the integer
  \<open>n\<close> nearest to \<open>x * 10 ^ f\<close> (the larger one of two) is printed with a point before
  its last \<open>f\<close> digits; anything else prints as \<^verbatim>\<open>String(x)\<close>.
\<close>

definition toFixed :: "nat \<Rightarrow> jsnum \<Rightarrow> string" where
  "toFixed f v =
     (case v of
        Fin x \<Rightarrow>
          if 10 ^ 21 \<le> \<bar>x\<bar> then Number_toString v
          else
            let n = nat \<lfloor>\<bar>x\<bar> * 10 ^ f + 1 / 2\<rfloor>;
                m = nat_to_string n;
                m' = (if length m \<le> f then replicate (f + 1 - length m) CHR ''0'' @ m else m);
                k = length m'
            in (if x < 0 then ''-'' else []) @
               (if f = 0 then m' else take (k - f) m' @ ''.'' @ drop (k - f) m')
      | _ \<Rightarrow> Number_toString v)"

section \<open>JSON values and JSON.stringify\<close>

text \<open>
  The values that \<^verbatim>\<open>JSON.parse\<close> returns and that the reports are made of. An object
  is the list of its properties in enumeration order.
\<close>

datatype json =
    JNull
  | JBool bool
  | JNum jsnum
  | JStr string
  | JArr "json list"
  | JObj "(string \<times> json) list"

text \<open>\<^verbatim>\<open>Array.prototype.join\<close> on strings, and on lists of any kind.\<close>

fun join :: "'a list \<Rightarrow> 'a list list \<Rightarrow> 'a list" where
  "join sep [] = []"
| "join sep [x] = x"
| "join sep (x # y # ys) = x @ sep @ join sep (y # ys)"

definition hex_char :: "nat \<Rightarrow> char" where
  "hex_char d = (if d < 10 then char_of (48 + d) else char_of (87 + d))"

text \<open>How \<^verbatim>\<open>JSON.stringify\<close> writes one code unit inside a string.\<close>

definition quote_char :: "char \<Rightarrow> string" where
  "quote_char c =
     (if c = CHR 0x22 then [CHR 0x5C, CHR 0x22]
      else if c = CHR 0x5C then [CHR 0x5C, CHR 0x5C]
      else if c = CHR 0x08 then [CHR 0x5C, CHR ''b'']
      else if c = CHR 0x0C then [CHR 0x5C, CHR ''f'']
      else if c = CHR 0x0A then [CHR 0x5C, CHR ''n'']
      else if c = CHR 0x0D then [CHR 0x5C, CHR ''r'']
      else if c = CHR 0x09 then [CHR 0x5C, CHR ''t'']
      else if (of_char c :: nat) < 32 then
        [CHR 0x5C, CHR ''u'', CHR ''0'', CHR ''0'',
         hex_char (of_char c div 16), hex_char (of_char c mod 16)]
      else [c])"

definition quote_string :: "string \<Rightarrow> string" where
  "quote_string s = CHR 0x22 # concat (map quote_char s) @ [CHR 0x22]"

text \<open>
  \<^verbatim>\<open>JSON.stringify(v)\<close> without indentation; a number that is not finite prints as null.
\<close>

fun JSON_stringify :: "json \<Rightarrow> string" where
  "JSON_stringify JNull = ''null''"
| "JSON_stringify (JBool b) = (if b then ''true'' else ''false'')"
| "JSON_stringify (JNum (Fin x)) = Number_toString (Fin x)"
| "JSON_stringify (JNum _) = ''null''"
| "JSON_stringify (JStr s) = quote_string s"
| "JSON_stringify (JArr xs) = ''['' @ join '','' (map JSON_stringify xs) @ '']''"
| "JSON_stringify (JObj kvs) =
     ''{'' @
     join '','' (map (\<lambda>kv. quote_string (fst kv) @ '':'' @ JSON_stringify (snd kv)) kvs) @
     ''}''"

section \<open>gemini-client.js: invokeWithRetry\<close>

text \<open>The fixed report that mock mode returns.\<close>

definition mock_report :: json where
  "mock_report = JObj [
      (''overallScore'', JNum (Fin 70)),
      (''recommendation'', JStr ''Watchlist''),
      (''financialHealth'', JStr ''The company exhibits a mixed financial health profile. Strengths include a Free Cash Flow Yield of 3%, which surpasses the >2% threshold, and a Return on Invested Capital (ROIC) of 11%, exceeding the >10% benchmark, both indicating efficient capital utilization and cash generation. However, a significant weakness is the Net Debt/EBITDA ratio of 4x, which is considerably above the <2.5x threshold, suggesting elevated leverage and potential financial risk. Additionally, the 5-year Revenue Growth CAGR of 3.5% falls short of the >5% target, indicating slower top-line expansion. The Risk Sensitivity Alignment signals confirm these mixed results, with FCF Yield and ROIC passing, while Net Debt/EBITDA and Revenue Growth fail.''),
      (''valuation'', JStr ''The stock appears to be overvalued relative to its sector, as indicated by its Forward P/E being 'Above' the sector median, failing the 'Below Sector Median' threshold. While specific P/E and EV/EBITDA figures for TBD are not provided, a comparison with peers reveals a range: Broadcom (AVGO) has a P/E of 20.4 and EV/EBITDA of 15.8, Intel (INTC) stands at P/E 24.4 and EV/EBITDA 24.4, and Advanced Micro Device (AMD) at P/E 31.1 and EV/EBITDA 27.1. Given TBD's 'Above Sector' P/E, it suggests the stock is trading at a premium compared to many of its peers, implying it is likely overvalued at current levels.''),
      (''futureGrowth'', JStr ''Future growth prospects appear challenged. The 5-year Revenue Growth CAGR of 3.5% is below the 5% threshold, indicating a sluggish historical growth trajectory. Furthermore, the Operating Leverage Trend is 'Negative', failing the 'Expanding' threshold, which suggests that the company is not effectively translating revenue growth into disproportionately higher operating income, potentially due to rising costs or inefficiencies. When compared to peers, TBD's 3.5% revenue growth significantly lags the EPS 3Y CAGR of AMD (26.7%), INTC (15.4%), and AVGO (7.3%). While the SIS/SSIS data provides Compounding Scores for peers (JD at 80, ETSY at 50), TBD's specific compounding score is not available, but its own growth metrics point to limited organic expansion.''),
      (''competitiveAdvantage'', JStr ''The company exhibits mixed signals regarding its competitive advantage. A key strength is 'Significant' Insider Ownership/Buying, which passes its threshold, indicating strong alignment of management interests with shareholders and confidence in the company's future. However, the 'Negative' Relative Strength vs Sector, which fails the 'Positive' threshold, suggests the stock is underperforming its industry peers, potentially indicating a weakening competitive position or market perception. While direct performance metrics for TBD against peers are not provided, its significantly lower revenue growth (3.5% CAGR) compared to peers' EPS growth (e.g., AMD 26.7%, INTC 15.4%) further underscores a potential lag in market leadership or product innovation, challenging the presence of a strong, sustained competitive moat.''),
      (''managementQuality'', JStr ''Management quality appears strong, as evidenced by an overall qualitative rating of 4.5. The 'Investment Process' and 'Valuation Approach' criteria both received a score of 4, indicating robust strategic planning and financial assessment capabilities. The 'Catalyst Recognition' score of 3, while slightly lower, still suggests a reasonable ability to identify and capitalize on market opportunities. Furthermore, the 'Significant' Insider Ownership/Buying metric, which passed its threshold, reinforces confidence in management, as their personal financial interests are closely tied to the company's success, aligning them with shareholder value creation.''),
      (''riskFactors'', JStr ''Several risk factors warrant attention. Financial leverage is a concern, with Net Debt/EBITDA at 4x, significantly above the <2.5x threshold. Growth risks are highlighted by a 5-year Revenue Growth CAGR of 3.5% (below 5%) and a 'Negative' Operating Leverage Trend. Valuation risk is present as the Forward P/E is 'Above' the sector median. Technical risks include 'Negative' Relative Strength vs Sector. While TBD's specific Max Drawdown is not provided, peer data shows high drawdowns for JD (37%) and INTC (37.5%), indicating potential for significant price volatility. Beta values for peers range from 0.9 (AVGO) to 1.7 (AMD), suggesting that the sector can exhibit considerable market sensitivity, which could imply similar volatility for TBD.''),
      (''technicalTrend'', JStr ''The technical trend presents a mixed picture. Positively, the stock is 'Above' its 200-day Moving Average, which is a bullish indicator. The Accumulation/Distribution Indicator is also 'Positive', suggesting buying interest. However, a significant concern is the 'Negative' Relative Strength vs Sector, indicating underperformance compared to its industry. While specific RSI and 50-DMA trends for TBD are not available, peer data shows RSI levels in a neutral range (AMD 54.6, INTC 57.3, AVGO 52.2) and mixed 50-DMA trends (AMD +2.3%, INTC +4.5%, AVGO -0.9%). Momentum scores for peers JD (46) and ETSY (10) are positive, but TBD's specific momentum is not provided, leaving its overall short-term price action outlook somewhat ambiguous despite the positive MA and accumulation signals.''),
      (''portfolioFit'', JStr ''This stock is best suited for a balanced or quality-focused investor with a moderate to high-risk tolerance and a medium-to-long-term investment horizon. It is not ideal for pure growth investors due to its subdued revenue growth and negative operating leverage, nor for deep value investors given its 'Above Sector' P/E. Its strong Free Cash Flow Yield, Return on Invested Capital, and robust management quality suggest a company with underlying fundamental strength, which could appeal to investors seeking stable, albeit slower, compounding. However, the elevated debt levels and underperforming relative strength necessitate a careful assessment of its risk-adjusted return profile and a willingness to tolerate potential volatility.''),
      (''timeHorizon'', JStr ''A medium to long-term time horizon is recommended for this investment. The current challenges in revenue growth and elevated debt levels suggest that short-term catalysts for significant price appreciation may be limited, as indicated by a 'Catalyst Recognition' score of 3. However, the company's strong fundamental resilience, demonstrated by its Free Cash Flow Yield and Return on Invested Capital, coupled with high-quality management and significant insider ownership, provides a foundation for potential long-term value creation. Investors should be prepared to hold the stock for several years to allow management to address growth and leverage concerns and for the market to potentially re-rate the stock based on improved operational performance.''),
      (''aiSummary'', JStr ''TBD presents a complex investment profile with a blend of notable strengths and significant weaknesses. Key strengths include robust Free Cash Flow Yield (3%) and Return on Invested Capital (11%), strong qualitative management ratings (4.5 overall), and significant insider ownership, indicating sound operational efficiency and aligned leadership. Technically, it trades above its 200-day Moving Average with positive accumulation. However, the company faces critical challenges: high Net Debt/EBITDA (4x), sluggish 5-year Revenue Growth (3.5%), a negative Operating Leverage Trend, and a valuation that appears 'Above Sector' median. Its 'Negative' Relative Strength vs Sector also points to underperformance. The overall investment thesis suggests a fundamentally sound company with strong cash generation and management, but currently hampered by growth deceleration, elevated leverage, and a potentially stretched valuation. Critical decision factors for investors will revolve around management's ability to accelerate top-line growth and deleverage the balance sheet, while maintaining profitability. The mixed signals warrant a cautious approach, placing it on a 'Watchlist' rather than an immediate 'Buy'.''),
      (''finalVerdict'', JStr ''TBD is a fundamentally solid but currently imbalanced opportunity that merits Watchlist status rather than an outright Buy. Its strengths in free cash flow generation, return on invested capital, and management quality provide a robust foundation, yet these positives are tempered by elevated leverage, subpar revenue growth, negative operating leverage, and valuation above sector norms. Until the company demonstrates tangible progress in accelerating top-line growth, improving operating efficiency, and reducing debt, the risk-reward profile remains skewed toward caution rather than aggressive accumulation.'')]"

text \<open>
  \<^verbatim>\<open>CONFIG\<close> of config/settings.js, with the two fields that the client reads.
\<close>

record config =
  mockMode :: bool
  maxRetries :: nat

definition CONFIG :: "bool \<Rightarrow> config" where
  \<comment> \<open>\<^verbatim>\<open>mockMode: process.env.MOCK_MODE === 'true'\<close>, \<^verbatim>\<open>maxRetries: 3\<close>\<close>
  "CONFIG mock_env = \<lparr>mockMode = mock_env, maxRetries = 3\<rparr>"

text \<open>
  The external model: \<open>model k prompt\<close> is what the \<open>k\<close>-th request sent to the service
  yields for \<^verbatim>\<open>generateContent(prompt)\<close>, \<^verbatim>\<open>result.response\<close> and \<^verbatim>\<open>response.text()\<close>
  taken together: \<open>Inr\<close> the response text, or \<open>Inl\<close> the message of the error thrown.
\<close>

type_synonym gemini = "nat \<Rightarrow> string \<Rightarrow> string + string"

text \<open>
  What one call of \<^verbatim>\<open>invokeWithRetry\<close> does: the number of requests it sent, the
  delays it slept (milliseconds, in order) and what it returned or threw.
\<close>

record invocation =
  calls :: nat
  waits :: "nat list"
  outcome :: "js_error + string"

text \<open>
  The \<^verbatim>\<open>for (let attempt = 0; attempt < retries; attempt++)\<close> loop. \<open>t\<close> is the number
  of requests the service has seen before this invocation, \<open>lastError\<close> the message of
  the last error caught (\<open>None\<close> while \<^verbatim>\<open>lastError\<close> is undefined), \<open>ws\<close> the delays so far.
\<close>

function retry_loop ::
  "gemini \<Rightarrow> nat \<Rightarrow> string \<Rightarrow> nat \<Rightarrow> nat \<Rightarrow> string option \<Rightarrow> nat list \<Rightarrow> invocation" where
  "retry_loop model t prompt retries attempt lastError ws =
     (if attempt < retries then
        (case model (t + attempt) prompt of
           Inr text \<Rightarrow> \<lparr>calls = attempt + 1, waits = ws, outcome = Inr text\<rparr>
         | Inl msg \<Rightarrow>
             retry_loop model t prompt retries (attempt + 1) (Some msg)
               (if attempt < retries - 1 then ws @ [2 ^ attempt * 1000] else ws))
      else
        \<lparr>calls = attempt, waits = ws,
         outcome =
           (case lastError of
              None \<Rightarrow> Inl (TypeError ''Cannot read properties of undefined (reading 'message')'')
            | Some m \<Rightarrow>
                Inl (Error (''Failed after '' @ nat_to_string retries @ '' attempts: '' @ m)))\<rparr>)"
  by pat_completeness auto
termination
  by (relation "measure (\<lambda>(model, t, prompt, retries, attempt, lastError, ws). retries - attempt)")
     auto

declare retry_loop.simps [simp del]

text \<open>
  \<^verbatim>\<open>invokeWithRetry(model, prompt, retries)\<close>; \<open>retries\<close> is \<^verbatim>\<open>CONFIG.maxRetries\<close> when
  the caller passes none. In mock mode no request is sent.
\<close>

definition invokeWithRetry :: "config \<Rightarrow> gemini \<Rightarrow> nat \<Rightarrow> string \<Rightarrow> nat \<Rightarrow> invocation" where
  "invokeWithRetry cfg model t prompt retries =
     (if mockMode cfg then \<lparr>calls = 0, waits = [], outcome = Inr (JSON_stringify mock_report)\<rparr>
      else retry_loop model t prompt retries 0 None [])"

section \<open>JSON.parse\<close>

text \<open>
  \<^verbatim>\<open>JSON.parse\<close> is the engine's. The model reads the text in two passes: the text is
  cut into tokens, and a pushdown automaton builds the value from the tokens. A number
  literal denotes the double nearest to its decimal value. When a key occurs twice in an
  object, the later value replaces the earlier one. An escape \<^verbatim>\<open>\uXXXX\<close> above 00FF
  is outside the range of the code units and is read modulo 256. The message of the
  syntax error tells a text that ends inside a token or inside a container from any other
  error, and carries no position.
\<close>

datatype token =
    LBrace | RBrace | LBracket | RBracket | Colon | Comma
  | TString string | TNumber rat | TTrue | TFalse | TNull
  | TTruncated \<comment> \<open>the text ends inside a token\<close>
  | TInvalid \<comment> \<open>no token starts here\<close>

text \<open>
  The outcome of reading one token: its value and its length, or the text ends inside
  it, or it is malformed.
\<close>

datatype 'a lexed = Lexed 'a nat | Truncated | Invalid

definition push :: "char \<Rightarrow> nat \<Rightarrow> string lexed \<Rightarrow> string lexed" where
  "push c k r = (case r of Lexed s n \<Rightarrow> Lexed (c # s) (n + k) | Truncated \<Rightarrow> Truncated | Invalid \<Rightarrow> Invalid)"

definition is_json_ws :: "char \<Rightarrow> bool" where
  "is_json_ws c = (c = CHR 0x20 \<or> c = CHR 0x09 \<or> c = CHR 0x0A \<or> c = CHR 0x0D)"

definition is_digit :: "char \<Rightarrow> bool" where
  "is_digit c = (48 \<le> (of_char c :: nat) \<and> (of_char c :: nat) \<le> 57)"

definition digit_val :: "char \<Rightarrow> nat" where
  "digit_val c = of_char c - 48"

definition digits_val :: "string \<Rightarrow> nat" where
  "digits_val ds = foldl (\<lambda>a c. 10 * a + digit_val c) 0 ds"

definition hex_val :: "char \<Rightarrow> nat option" where
  "hex_val c =
     (let n = (of_char c :: nat)
      in if 48 \<le> n \<and> n \<le> 57 then Some (n - 48)
         else if 97 \<le> n \<and> n \<le> 102 then Some (n - 87)
         else if 65 \<le> n \<and> n \<le> 70 then Some (n - 55)
         else None)"

fun hex4 :: "string \<Rightarrow> nat option" where
  "hex4 [a, b, c, d] =
     (case (hex_val a, hex_val b, hex_val c, hex_val d) of
        (Some x, Some y, Some z, Some w) \<Rightarrow> Some (((x * 16 + y) * 16 + z) * 16 + w)
      | _ \<Rightarrow> None)"
| "hex4 _ = None"

definition unescape :: "char \<Rightarrow> char option" where
  "unescape e =
     (if e = CHR 0x22 then Some (CHR 0x22)
      else if e = CHR 0x5C then Some (CHR 0x5C)
      else if e = CHR ''/'' then Some (CHR ''/'')
      else if e = CHR ''b'' then Some (CHR 0x08)
      else if e = CHR ''f'' then Some (CHR 0x0C)
      else if e = CHR ''n'' then Some (CHR 0x0A)
      else if e = CHR ''r'' then Some (CHR 0x0D)
      else if e = CHR ''t'' then Some (CHR 0x09)
      else None)"

text \<open>
  The string token whose opening quote has just been read: its value and the number
  of code units up to and including its closing quote. A control character and an
  unknown escape are malformed.
\<close>

fun lex_string :: "string \<Rightarrow> string lexed" where
  "lex_string [] = Truncated"
| "lex_string (c # cs) =
     (if c = CHR 0x22 then Lexed [] 1
      else if c = CHR 0x5C then
        (case cs of
           [] \<Rightarrow> Truncated
         | e # es \<Rightarrow>
             if e = CHR ''u'' then
               (if length es < 4 then Truncated
                else
                  case hex4 (take 4 es) of
                    None \<Rightarrow> Invalid
                  | Some v \<Rightarrow> push (char_of v) 6 (lex_string (drop 4 es)))
             else
               (case unescape e of
                  None \<Rightarrow> Invalid
                | Some ch \<Rightarrow> push ch 2 (lex_string es)))
      else if (of_char c :: nat) < 32 then Invalid
      else push c 1 (lex_string cs))"

text \<open>
  The number token at the head of \<open>s\<close>: its exact decimal value and its length. The
  integer part is a single 0 or starts with a digit other than 0; a point and an exponent
  mark must be followed by a digit.
\<close>

definition lex_number :: "string \<Rightarrow> rat lexed" where
  "lex_number s =
     (let neg = (s \<noteq> [] \<and> hd s = CHR ''-'');
          s1 = (if neg then tl s else s);
          ds = takeWhile is_digit s1;
          ip = (if ds \<noteq> [] \<and> hd ds = CHR ''0'' then ''0'' else ds);
          s2 = drop (length ip) s1
      in if ip = [] then (if s1 = [] then Truncated else Invalid)
         else
           let hasfrac = (s2 \<noteq> [] \<and> hd s2 = CHR ''.'');
               fs = (if hasfrac then takeWhile is_digit (tl s2) else []);
               s3 = (if hasfrac then drop (length fs) (tl s2) else s2)
           in if hasfrac \<and> fs = [] then (if tl s2 = [] then Truncated else Invalid)
              else
                let hasexp = (s3 \<noteq> [] \<and> (hd s3 = CHR ''e'' \<or> hd s3 = CHR ''E''));
                    s4 = (if hasexp then tl s3 else s3);
                    eneg = (hasexp \<and> s4 \<noteq> [] \<and> hd s4 = CHR ''-'');
                    s5 = (if hasexp \<and> s4 \<noteq> [] \<and> (hd s4 = CHR ''-'' \<or> hd s4 = CHR ''+'')
                          then tl s4 else s4);
                    es = (if hasexp then takeWhile is_digit s5 else [])
                in if hasexp \<and> es = [] then (if s5 = [] then Truncated else Invalid)
                   else
                     let mant = of_nat (digits_val ip) + of_nat (digits_val fs) / 10 ^ length fs;
                         ex = int (digits_val es);
                         v = mant * 10 powi (if eneg then - ex else ex)
                     in Lexed (if neg then - v else v) (length s - length (drop (length es) s5)))"

definition startsWith :: "string \<Rightarrow> string \<Rightarrow> bool" where
  \<comment> \<open>\<^verbatim>\<open>s.startsWith(p)\<close>\<close>
  "startsWith s p = (take (length p) s = p)"

text \<open>
  The literal \<open>w\<close> at the head of the text \<open>s\<close>: all of it, or the text ends inside it.
\<close>

definition lex_word :: "string \<Rightarrow> string \<Rightarrow> token \<Rightarrow> token lexed" where
  "lex_word s w t =
     (if startsWith s w then Lexed t (length w)
      else if length s < length w \<and> startsWith w s then Truncated
      else Invalid)"

text \<open>The tokens of a text, up to the first that is truncated or malformed.\<close>

fun tokenize :: "string \<Rightarrow> token list" where
  "tokenize [] = []"
| "tokenize (c # cs) =
     (if is_json_ws c then tokenize cs
      else if c = CHR ''{'' then LBrace # tokenize cs
      else if c = CHR ''}'' then RBrace # tokenize cs
      else if c = CHR ''['' then LBracket # tokenize cs
      else if c = CHR '']'' then RBracket # tokenize cs
      else if c = CHR '':'' then Colon # tokenize cs
      else if c = CHR '','' then Comma # tokenize cs
      else if c = CHR 0x22 then
        (case lex_string cs of
           Lexed s n \<Rightarrow> TString s # tokenize (drop n cs)
         | Truncated \<Rightarrow> [TTruncated]
         | Invalid \<Rightarrow> [TInvalid])
      else if c = CHR ''-'' \<or> is_digit c then
        (case lex_number (c # cs) of
           Lexed x n \<Rightarrow> TNumber x # tokenize (drop (n - 1) cs)
         | Truncated \<Rightarrow> [TTruncated]
         | Invalid \<Rightarrow> [TInvalid])
      else
        (case (if c = CHR ''t'' then lex_word (c # cs) ''true'' TTrue
               else if c = CHR ''f'' then lex_word (c # cs) ''false'' TFalse
               else if c = CHR ''n'' then lex_word (c # cs) ''null'' TNull
               else Invalid) of
           Lexed t n \<Rightarrow> t # tokenize (drop (n - 1) cs)
         | Truncated \<Rightarrow> [TTruncated]
         | Invalid \<Rightarrow> [TInvalid]))"

text \<open>
  The automaton. Its stack holds, innermost first, the containers that are open: an
  array with the elements read so far, an object with the properties read so far, and
  above an object the key whose value is being read.
\<close>

datatype frame = FArr "json list" | FObj "(string \<times> json) list" | FKey string

datatype mode =
    MValue \<comment> \<open>a value must follow\<close>
  | MArrFirst \<comment> \<open>after \<^verbatim>\<open>[\<close>: a value or \<^verbatim>\<open>]\<close>\<close>
  | MObjFirst \<comment> \<open>after \<^verbatim>\<open>{\<close>: a key or \<^verbatim>\<open>}\<close>\<close>
  | MKey \<comment> \<open>after a comma in an object: a key\<close>
  | MColon \<comment> \<open>after a key: a colon\<close>
  | MAfter \<comment> \<open>after a value in a container: a comma or the closing bracket\<close>
  | MDone json \<comment> \<open>the whole value has been read\<close>

text \<open>A value \<open>v\<close> is complete: it goes into the innermost open container.\<close>

fun reduce :: "json \<Rightarrow> frame list \<Rightarrow> (mode \<times> frame list) option" where
  "reduce v [] = Some (MDone v, [])"
| "reduce v (FArr xs # st) = Some (MAfter, FArr (xs @ [v]) # st)"
| "reduce v (FKey k # FObj es # st) = Some (MAfter, FObj (AList.update k v es) # st)"
| "reduce v _ = None"

fun begin_value :: "token \<Rightarrow> frame list \<Rightarrow> (mode \<times> frame list) option" where
  "begin_value (TString s) st = reduce (JStr s) st"
| "begin_value (TNumber x) st = reduce (JNum (to_double x)) st"
| "begin_value TTrue st = reduce (JBool True) st"
| "begin_value TFalse st = reduce (JBool False) st"
| "begin_value TNull st = reduce JNull st"
| "begin_value LBracket st = Some (MArrFirst, FArr [] # st)"
| "begin_value LBrace st = Some (MObjFirst, FObj [] # st)"
| "begin_value _ st = None"

fun advance :: "mode \<times> frame list \<Rightarrow> token \<Rightarrow> (mode \<times> frame list) option" where
  "advance (MValue, st) t = begin_value t st"
| "advance (MArrFirst, FArr xs # st) RBracket = reduce (JArr xs) st"
| "advance (MArrFirst, st) t = begin_value t st"
| "advance (MObjFirst, FObj es # st) RBrace = reduce (JObj es) st"
| "advance (MObjFirst, st) (TString k) = Some (MColon, FKey k # st)"
| "advance (MKey, st) (TString k) = Some (MColon, FKey k # st)"
| "advance (MColon, st) Colon = Some (MValue, st)"
| "advance (MAfter, FArr xs # st) Comma = Some (MValue, FArr xs # st)"
| "advance (MAfter, FArr xs # st) RBracket = reduce (JArr xs) st"
| "advance (MAfter, FObj es # st) Comma = Some (MKey, FObj es # st)"
| "advance (MAfter, FObj es # st) RBrace = reduce (JObj es) st"
| "advance _ _ = None"

datatype parse_result = Parsed json | UnexpectedEnd | UnexpectedToken

fun run :: "mode \<times> frame list \<Rightarrow> token list \<Rightarrow> parse_result" where
  "run (MDone v, st) [] = Parsed v"
| "run c [] = UnexpectedEnd"
| "run c (t # ts) =
     (if t = TTruncated then UnexpectedEnd
      else case advance c t of None \<Rightarrow> UnexpectedToken | Some c' \<Rightarrow> run c' ts)"

definition JSON_parse :: "string \<Rightarrow> js_error + json" where
  "JSON_parse text =
     (case run (MValue, []) (tokenize text) of
        Parsed v \<Rightarrow> Inr v
      | UnexpectedEnd \<Rightarrow> Inl (SyntaxError ''Unexpected end of JSON input'')
      | UnexpectedToken \<Rightarrow> Inl (SyntaxError ''Unexpected token in JSON''))"

section \<open>gemini-client.js: parseJsonResponse\<close>

text \<open>
  White space of \<^verbatim>\<open>trim()\<close> and of \<^verbatim>\<open>\s\<close>, among the code units 0..255.
\<close>

definition is_space :: "char \<Rightarrow> bool" where
  "is_space c =
     (c = CHR 0x09 \<or> c = CHR 0x0A \<or> c = CHR 0x0B \<or> c = CHR 0x0C \<or> c = CHR 0x0D \<or>
      c = CHR 0x20 \<or> c = CHR 0xA0)"

definition trim :: "string \<Rightarrow> string" where
  "trim s = rev (dropWhile is_space (rev (dropWhile is_space s)))"

definition endsWith :: "string \<Rightarrow> string \<Rightarrow> bool" where
  "endsWith s p = (length p \<le> length s \<and> drop (length s - length p) s = p)"

fun contains :: "string \<Rightarrow> string \<Rightarrow> bool" where
  \<comment> \<open>\<^verbatim>\<open>s.includes(p)\<close>\<close>
  "contains [] p = (p = [])"
| "contains (c # cs) p = (startsWith (c # cs) p \<or> contains cs p)"

text \<open>
  \<^verbatim>\<open>s.replace(/^```(?:json)?\s*\n/, '')\<close>. After the three backquotes and an optional
  \<^verbatim>\<open>json\<close>, the longest run of white space must hold a line feed; the match ends with
  the last line feed of the run.
\<close>

definition strip_opening_fence :: "string \<Rightarrow> string" where
  "strip_opening_fence s =
     (if startsWith s ''```'' then
        let r = drop 3 s;
            r' = (if startsWith r ''json'' then drop 4 r else r);
            w = takeWhile is_space r'
        in if CHR 0x0A \<in> set w
           then rev (takeWhile (\<lambda>c. c \<noteq> CHR 0x0A) (rev w)) @ dropWhile is_space r'
           else s
      else s)"

text \<open>
  \<^verbatim>\<open>s.replace(/\n```\s*$/, '')\<close>: a line feed and three backquotes, followed by white
  space only up to the end of the text, are removed with that white space.
\<close>

definition strip_closing_fence :: "string \<Rightarrow> string" where
  "strip_closing_fence s =
     (let body = rev (dropWhile is_space (rev s))
      in if endsWith body (CHR 0x0A # ''```'') then take (length body - 4) body else s)"

text \<open>
  \<^verbatim>\<open>s.match(/\{[\s\S]*\}/)\<close>: from the first opening brace to the last closing brace
  after it.
\<close>

definition match_object :: "string \<Rightarrow> string option" where
  "match_object s =
     (let from_brace = dropWhile (\<lambda>c. c \<noteq> CHR ''{'') s;
          m = rev (dropWhile (\<lambda>c. c \<noteq> CHR ''}'') (rev from_brace))
      in if m = [] then None else Some m)"

text \<open>\<^verbatim>\<open>s.lastIndexOf(c)\<close>, which is \<open>- 1\<close> when \<open>c\<close> does not occur.\<close>

definition lastIndexOf :: "string \<Rightarrow> char \<Rightarrow> int" where
  "lastIndexOf s c =
     (if c \<in> set s then int (length s) - 1 - int (length (takeWhile (\<lambda>d. d \<noteq> c) (rev s)))
      else - 1)"

definition substring :: "string \<Rightarrow> int \<Rightarrow> int \<Rightarrow> string" where
  \<comment> \<open>\<^verbatim>\<open>s.substring(0, e)\<close> is \<open>substring s 0 e\<close>; only \<open>0 \<le> b \<le> e\<close> occurs\<close>
  "substring s b e = drop (nat b) (take (nat e) s)"

definition count_quotes :: "string \<Rightarrow> nat" where
  \<comment> \<open>\<^verbatim>\<open>(s.match(/"/g) || []).length\<close>\<close>
  "count_quotes s = length (filter (\<lambda>c. c = CHR 0x22) s)"

text \<open>The attempt to close an unterminated string in the truncated text.\<close>

definition close_last_string :: "string \<Rightarrow> string" where
  "close_last_string truncated =
     (let fixed = truncated;
          quoteCount = count_quotes fixed
      in if quoteCount mod 2 \<noteq> 0 then
           let lastQuote = lastIndexOf fixed (CHR 0x22)
           in if 0 < lastQuote \<and> fixed ! nat (lastQuote - 1) \<noteq> CHR 0x5C then
                let beforeQuote = substring fixed 0 lastQuote;
                    quotePairs = count_quotes beforeQuote
                in if quotePairs mod 2 \<noteq> 0 then substring fixed 0 (lastQuote + 1) @ [CHR 0x22]
                   else fixed
              else fixed
         else fixed)"

text \<open>
  The text that is handed to \<^verbatim>\<open>JSON.parse\<close>: trimmed, without the markdown fence, cut
  down to the braces when there are any.
\<close>

definition clean_response :: "string \<Rightarrow> string" where
  "clean_response response =
     (let cleanedResponse = trim response;
          cleanedResponse =
            (if startsWith cleanedResponse ''```''
             then strip_closing_fence (strip_opening_fence cleanedResponse)
             else cleanedResponse)
      in case match_object cleanedResponse of
           Some jsonMatch \<Rightarrow> jsonMatch
         | None \<Rightarrow> cleanedResponse)"

text \<open>
  \<^verbatim>\<open>parseJsonResponse\<close>, with the parser as a parameter. The result is what was
  written to the console, one line for each call of \<^verbatim>\<open>console.warn\<close> and
  \<^verbatim>\<open>console.error\<close>, and what was returned or thrown.
\<close>

definition parseJsonResponse_with ::
  "(string \<Rightarrow> js_error + json) \<Rightarrow> string \<Rightarrow> string list \<times> (js_error + json)" where
  "parseJsonResponse_with parse response =
     (let cleanedResponse = clean_response response
      in case parse cleanedResponse of
           Inr v \<Rightarrow> ([], Inr v)
         | Inl error \<Rightarrow>
             let lastBrace = lastIndexOf cleanedResponse (CHR ''}'');
                 recovered =
                   (if 0 < lastBrace
                    then Some (parse (close_last_string (substring cleanedResponse 0 (lastBrace + 1))))
                    else None);
                 failed =
                   ''Failed to parse JSON response. First 500 chars: '' @
                   substring cleanedResponse 0 500;
                 thrown = Error (''Invalid JSON response from model: '' @ message error)
             in case recovered of
                  Some (Inr v) \<Rightarrow> ([], Inr v)
                | Some (Inl e) \<Rightarrow>
                    ([''Attempting to recover JSON by extracting object...'', failed], Inl thrown)
                | None \<Rightarrow> ([failed], Inl thrown))"

definition parseJsonResponse :: "string \<Rightarrow> js_error + json" where
  "parseJsonResponse response = snd (parseJsonResponse_with JSON_parse response)"

section \<open>validators.js: the input and extractKeyMetrics\<close>

text \<open>
  An input with the fields that the agent reads: \<open>pass\<close> is \<^verbatim>\<open>z.boolean().optional()\<close>
  in the schema, the three overall scores are \<^verbatim>\<open>z.number()\<close>.
\<close>

record metric =
  name :: string
  pass :: "bool option"

record metric_group =
  metrics :: "metric list"

record quantitative =
  fundamentalResilience :: metric_group
  asymmetricRiskReward :: metric_group
  technicalConfirmation :: metric_group

record composite_score =
  overall :: jsnum

record qualitative =
  overallRating :: jsnum

record stock =
  symbol :: string
  name :: string
  asOf :: string

record stock_input =
  stock :: stock
  quantitative :: quantitative
  sis :: composite_score
  ssis :: composite_score
  qualitative :: qualitative

record key_metrics =
  totalMetrics :: nat
  passedCount :: nat
  failedCount :: nat
  passRate :: string
  sisScore :: jsnum
  ssisScore :: jsnum
  qualitativeRating :: jsnum
  passedMetrics :: "string list"
  failedMetrics :: "string list"

text \<open>
  The fields are read from the input itself. \<open>typed_input data\<close> is the input as the
  agent reads it: \<^verbatim>\<open>data.stock.symbol\<close>, \<^verbatim>\<open>data.stock.name\<close>, \<^verbatim>\<open>data.stock.asOf\<close>,
  the \<^verbatim>\<open>name\<close> and the \<^verbatim>\<open>pass\<close> flag of every element of the three \<^verbatim>\<open>metrics\<close> arrays
  (a flag that is not a boolean is neither true nor false), \<^verbatim>\<open>data.sis.overall\<close>,
  \<^verbatim>\<open>data.ssis.overall\<close> and \<^verbatim>\<open>data.qualitative.overallRating\<close>. Data that lacks one of
  these, or holds a value of another type there, is not an input of the agent:
  \<^verbatim>\<open>StockInputSchema\<close> rejects it.
\<close>

definition member :: "json \<Rightarrow> string \<Rightarrow> json option" where
  \<comment> \<open>\<^verbatim>\<open>v.k\<close> on an object\<close>
  "member v k = (case v of JObj es \<Rightarrow> map_of es k | _ \<Rightarrow> None)"

definition string_member :: "json \<Rightarrow> string \<Rightarrow> string option" where
  "string_member v k = (case member v k of Some (JStr s) \<Rightarrow> Some s | _ \<Rightarrow> None)"

definition number_member :: "json \<Rightarrow> string \<Rightarrow> jsnum option" where
  "number_member v k = (case member v k of Some (JNum n) \<Rightarrow> Some n | _ \<Rightarrow> None)"

definition read_metric :: "json \<Rightarrow> metric option" where
  "read_metric m =
     map_option
       (\<lambda>n. \<lparr>metric.name = n,
             pass = (case member m ''pass'' of Some (JBool b) \<Rightarrow> Some b | _ \<Rightarrow> None)\<rparr>)
       (string_member m ''name'')"

definition read_group :: "json \<Rightarrow> string \<Rightarrow> metric_group option" where
  "read_group q k =
     (case Option.bind (member q k) (\<lambda>g. member g ''metrics'') of
        Some (JArr xs) \<Rightarrow> map_option (\<lambda>ms. \<lparr>metrics = ms\<rparr>) (those (map read_metric xs))
      | _ \<Rightarrow> None)"

definition read_stock :: "json \<Rightarrow> stock option" where
  "read_stock data =
     Option.bind (member data ''stock'') (\<lambda>st.
     Option.bind (string_member st ''symbol'') (\<lambda>sy.
     Option.bind (string_member st ''name'') (\<lambda>n.
     Option.bind (string_member st ''asOf'') (\<lambda>a.
       Some \<lparr>symbol = sy, name = n, asOf = a\<rparr>))))"

definition read_quantitative :: "json \<Rightarrow> quantitative option" where
  "read_quantitative data =
     Option.bind (member data ''quantitative'') (\<lambda>q.
     Option.bind (read_group q ''fundamentalResilience'') (\<lambda>fr.
     Option.bind (read_group q ''asymmetricRiskReward'') (\<lambda>ar.
     Option.bind (read_group q ''technicalConfirmation'') (\<lambda>tc.
       Some \<lparr>fundamentalResilience = fr, asymmetricRiskReward = ar,
             technicalConfirmation = tc\<rparr>))))"

definition read_input :: "json \<Rightarrow> stock_input option" where
  "read_input data =
     Option.bind (read_stock data) (\<lambda>st.
     Option.bind (read_quantitative data) (\<lambda>q.
     Option.bind (Option.bind (member data ''sis'') (\<lambda>v. number_member v ''overall'')) (\<lambda>s.
     Option.bind (Option.bind (member data ''ssis'') (\<lambda>v. number_member v ''overall'')) (\<lambda>ss.
     Option.bind (Option.bind (member data ''qualitative'') (\<lambda>v. number_member v ''overallRating''))
       (\<lambda>r.
       Some \<lparr>stock = st, quantitative = q, sis = \<lparr>overall = s\<rparr>, ssis = \<lparr>overall = ss\<rparr>,
             qualitative = \<lparr>overallRating = r\<rparr>\<rparr>)))))"

definition typed_input :: "json \<Rightarrow> js_error + stock_input" where
  "typed_input data =
     (case read_input data of
        Some d \<Rightarrow> Inr d
      | None \<Rightarrow> Inl (TypeError ''Cannot read properties of undefined''))"

text \<open>
  The body of \<^verbatim>\<open>allMetrics.forEach\<close>: one metric, pushed to \<open>passed\<close> when its flag is
  \<^verbatim>\<open>true\<close>, to \<open>failed\<close> when it is \<^verbatim>\<open>false\<close>, to neither when it is unset.
\<close>

fun classify :: "string list \<times> string list \<Rightarrow> metric \<Rightarrow> string list \<times> string list" where
  "classify (passed, failed) m =
     (if pass m = Some True then (passed @ [metric.name m], failed)
      else if pass m = Some False then (passed, failed @ [metric.name m])
      else (passed, failed))"

definition extractKeyMetrics :: "stock_input \<Rightarrow> key_metrics" where
  "extractKeyMetrics data =
     (let allMetrics =
            metrics (fundamentalResilience (quantitative data)) @
            metrics (asymmetricRiskReward (quantitative data)) @
            metrics (technicalConfirmation (quantitative data));
          (passed, failed) = foldl classify ([], []) allMetrics
      in \<lparr>totalMetrics = length allMetrics,
          passedCount = length passed,
          failedCount = length failed,
          passRate =
            toFixed 1
              (js_mul (js_div (Fin (of_nat (length passed))) (Fin (of_nat (length allMetrics))))
                 (Fin 100)),
          sisScore = overall (sis data),
          ssisScore = overall (ssis data),
          qualitativeRating = overallRating (qualitative data),
          passedMetrics = passed,
          failedMetrics = failed\<rparr>)"

section \<open>validators.js: the schemas\<close>

text \<open>
  The schemas are built with the combinators of the zod library. A schema is modelled by
  its check: given the path of a value and the value, \<open>None\<close> standing for undefined, the
  issues that \<^verbatim>\<open>parse\<close> collects, none when the value is accepted. The wording of the
  issues is that of zod 3. Keys that an object schema does not name are dropped by the
  library and raise no issue.
\<close>

datatype zod_issue = Issue (path: "string list") (issue_message: string)

type_synonym zod = "string list \<Rightarrow> json option \<Rightarrow> zod_issue list"

definition received :: "json option \<Rightarrow> string" where
  "received v =
     (case v of
        None \<Rightarrow> ''undefined''
      | Some JNull \<Rightarrow> ''null''
      | Some (JBool b) \<Rightarrow> ''boolean''
      | Some (JNum n) \<Rightarrow> (if n = NaN then ''nan'' else ''number'')
      | Some (JStr s) \<Rightarrow> ''string''
      | Some (JArr xs) \<Rightarrow> ''array''
      | Some (JObj es) \<Rightarrow> ''object'')"

definition invalid_type :: "string \<Rightarrow> zod" where
  "invalid_type expected p v =
     [Issue p (if v = None then ''Required''
               else ''Expected '' @ expected @ '', received '' @ received v)]"

definition z_string :: zod where
  "z_string p v = (case v of Some (JStr s) \<Rightarrow> [] | _ \<Rightarrow> invalid_type ''string'' p v)"

definition z_number :: zod where
  "z_number p v =
     (case v of
        Some (JNum n) \<Rightarrow> (if n = NaN then invalid_type ''number'' p v else [])
      | _ \<Rightarrow> invalid_type ''number'' p v)"

definition z_boolean :: zod where
  "z_boolean p v = (case v of Some (JBool b) \<Rightarrow> [] | _ \<Rightarrow> invalid_type ''boolean'' p v)"

definition optional :: "zod \<Rightarrow> zod" where
  "optional t p v = (if v = None then [] else t p v)"

definition nullable :: "zod \<Rightarrow> zod" where
  "nullable t p v = (if v = Some JNull then [] else t p v)"

definition z_union :: "zod list \<Rightarrow> zod" where
  "z_union ts p v = (if list_ex (\<lambda>t. t p v = []) ts then [] else [Issue p ''Invalid input''])"

definition z_array :: "zod \<Rightarrow> zod" where
  "z_array t p v =
     (case v of
        Some (JArr xs) \<Rightarrow>
          concat (map (\<lambda>(i, x). t (p @ [nat_to_string i]) (Some x)) (zip [0..<length xs] xs))
      | _ \<Rightarrow> invalid_type ''array'' p v)"

definition z_object :: "(string \<times> zod) list \<Rightarrow> zod" where
  "z_object shape p v =
     (case v of
        Some (JObj es) \<Rightarrow> concat (map (\<lambda>(k, t). t (p @ [k]) (map_of es k)) shape)
      | _ \<Rightarrow> invalid_type ''object'' p v)"

definition z_record :: "zod \<Rightarrow> zod" where
  "z_record t p v =
     (case v of
        Some (JObj es) \<Rightarrow> concat (map (\<lambda>(k, x). t (p @ [k]) (Some x)) es)
      | _ \<Rightarrow> invalid_type ''object'' p v)"

text \<open>
  \<^verbatim>\<open>schema.refine(check, { message })\<close>: the check runs on a value that the schema has
  accepted.
\<close>

definition refine :: "zod \<Rightarrow> (json option \<Rightarrow> bool) \<Rightarrow> string \<Rightarrow> zod" where
  "refine t check msg p v =
     (case t p v of [] \<Rightarrow> (if check v then [] else [Issue p msg]) | issues \<Rightarrow> issues)"

text \<open>The checks of the output schema: \<^verbatim>\<open>min\<close>, \<^verbatim>\<open>max\<close> and \<^verbatim>\<open>z.enum\<close>.\<close>

definition z_string_min :: "nat \<Rightarrow> zod" where
  "z_string_min n p v =
     (case v of
        Some (JStr s) \<Rightarrow>
          (if length s < n
           then [Issue p (''String must contain at least '' @ nat_to_string n @ '' character(s)'')]
           else [])
      | _ \<Rightarrow> invalid_type ''string'' p v)"

definition z_number_min_max :: "rat \<Rightarrow> rat \<Rightarrow> zod" where
  "z_number_min_max lo hi p v =
     (case v of
        Some (JNum (Fin x)) \<Rightarrow>
          (if x < lo
           then [Issue p (''Number must be greater than or equal to '' @ Number_toString (Fin lo))]
           else []) @
          (if hi < x
           then [Issue p (''Number must be less than or equal to '' @ Number_toString (Fin hi))]
           else [])
      | Some (JNum PosInfinity) \<Rightarrow>
          [Issue p (''Number must be less than or equal to '' @ Number_toString (Fin hi))]
      | Some (JNum NegInfinity) \<Rightarrow>
          [Issue p (''Number must be greater than or equal to '' @ Number_toString (Fin lo))]
      | _ \<Rightarrow> invalid_type ''number'' p v)"

definition z_enum :: "string list \<Rightarrow> zod" where
  "z_enum values p v =
     (case v of
        Some (JStr s) \<Rightarrow>
          (if s \<in> set values then []
           else [Issue p (''Invalid enum value. Expected '' @
                          join '' | '' (map (\<lambda>x. [CHR 0x27] @ x @ [CHR 0x27]) values) @
                          '', received '' @ [CHR 0x27] @ s @ [CHR 0x27])])
      | None \<Rightarrow> [Issue p ''Required'']
      | _ \<Rightarrow>
          [Issue p (''Expected '' @
                    join '' | '' (map (\<lambda>x. [CHR 0x27] @ x @ [CHR 0x27]) values) @
                    '', received '' @ received v)])"

text \<open>\<^verbatim>\<open>data.k !== undefined\<close> on an object.\<close>

definition has :: "json option \<Rightarrow> string \<Rightarrow> bool" where
  "has data k =
     (case data of
        Some (JObj es) \<Rightarrow> (case map_of es k of Some x \<Rightarrow> True | None \<Rightarrow> False)
      | _ \<Rightarrow> False)"

definition MetricSchema :: zod where
  "MetricSchema =
     refine
       (z_object [
          (''name'', z_string),
          (''value'', optional (z_union [z_number, z_string])),
          (''threshold'', optional z_string),
          (''thresholdRange'', optional z_string),
          (''pass'', optional z_boolean),
          (''actual'', optional (z_union [z_number, z_string])),
          (''points'', optional z_number),
          (''result'', optional z_string),
          (''weightedScore'', optional z_number)])
       (\<lambda>data. has data ''value'' \<or> has data ''actual'')
       ''Either 'value' or 'actual' must be provided''"

definition StockInputSchema_zod :: zod where
  "StockInputSchema_zod =
     z_object [
       (''stock'', z_object [
          (''symbol'', z_string),
          (''name'', z_string),
          (''asOf'', z_string),
          (''overallResult'', z_string)]),
       (''quantitative'', z_object [
          (''fundamentalResilience'', z_object [
             (''overall'', z_string),
             (''metrics'', z_array MetricSchema)]),
          (''asymmetricRiskReward'', z_object [
             (''overall'', z_string),
             (''metrics'', z_array MetricSchema)]),
          (''technicalConfirmation'', z_object [
             (''overall'', z_string),
             (''metrics'', z_array MetricSchema)]),
          (''riskSensitivityAlignment'', z_object [
             (''overall'', z_string),
             (''signals'', z_array (z_object [
                (''name'', z_string),
                (''pass'', z_boolean)]))])]),
       (''sis'', z_object [
          (''overall'', z_number),
          (''stocks'', z_array (z_object [
             (''symbol'', z_string),
             (''name'', z_string),
             (''sisScore'', z_number),
             (''metrics'', z_array MetricSchema)]))]),
       (''ssis'', z_object [
          (''overall'', z_number),
          (''peers'', z_array (z_object [
             (''symbol'', z_string),
             (''name'', z_string),
             (''overallScore'', z_number),
             (''metrics'', z_array MetricSchema)]))]),
       (''qualitative'', z_object [
          (''overallRating'', z_number),
          (''criteria'', z_array (z_object [
             (''name'', z_string),
             (''score'', z_number),
             (''notes'', nullable z_string)]))]),
       (''peerComparison'', z_object [
          (''baseSymbol'', z_string),
          (''peers'', z_array (z_object [
             (''name'', z_string),
             (''symbol'', z_string),
             (''metrics'', z_record z_string)]))])]"

definition StockAnalysisOutputSchema_zod :: zod where
  "StockAnalysisOutputSchema_zod =
     z_object [
       (''overallScore'', z_number_min_max 0 100),
       (''recommendation'', z_enum [''Buy'', ''Watchlist'', ''Avoid'']),
       (''financialHealth'', z_string_min 50),
       (''valuation'', z_string_min 50),
       (''futureGrowth'', z_string_min 50),
       (''competitiveAdvantage'', z_string_min 50),
       (''managementQuality'', z_string_min 50),
       (''riskFactors'', z_string_min 50),
       (''technicalTrend'', z_string_min 50),
       (''portfolioFit'', z_string_min 50),
       (''timeHorizon'', z_string_min 50),
       (''aiSummary'', z_string_min 100),
       (''finalVerdict'', z_string_min 50)]"

section \<open>validators.js: validateInput and validateOutput\<close>

text \<open>
  \<^verbatim>\<open>Schema.parse(data)\<close> returns, throws a \<^verbatim>\<open>ZodError\<close> with its issues, or throws
  something else. What it returns is not used.
\<close>

datatype 'a zod_result = Accepted 'a | ZodError "zod_issue list" | Thrown js_error

definition zod_parse :: "zod \<Rightarrow> json \<Rightarrow> unit zod_result" where
  "zod_parse schema data =
     (case schema [] (Some data) of [] \<Rightarrow> Accepted () | issues \<Rightarrow> ZodError issues)"

record validation =
  success :: bool
  errors :: "string list"

definition validate_with :: "(json \<Rightarrow> 'a zod_result) \<Rightarrow> json \<Rightarrow> validation" where
  "validate_with schema data =
     (case schema data of
        Accepted _ \<Rightarrow> \<lparr>success = True, errors = []\<rparr>
      | ZodError issues \<Rightarrow>
          \<lparr>success = False,
           errors = map (\<lambda>e. join ''.'' (path e) @ '': '' @ issue_message e) issues\<rparr>
      | Thrown err \<Rightarrow> \<lparr>success = False, errors = [message err]\<rparr>)"

section \<open>The collaborators\<close>

text \<open>
  What the agent is given from outside: the configuration, the zod library (what
  \<^verbatim>\<open>parse\<close> of each of the two schemas does), the model and its name, the prompt built
  from the input (config/prompts.js and \<^verbatim>\<open>formatPrompt\<close>), and the clock, \<open>Date_now k\<close>
  being the \<open>k\<close>-th reading of \<^verbatim>\<open>new Date().toISOString()\<close>.
\<close>

record env =
  config :: config
  StockInputSchema :: "json \<Rightarrow> unit zod_result"
  StockAnalysisOutputSchema :: "json \<Rightarrow> unit zod_result"
  model :: gemini
  modelName :: "string option"
  fullPrompt :: "json \<Rightarrow> string"
  Date_now :: "nat \<Rightarrow> string"

text \<open>The requests that the service has received and the readings of the clock so far.\<close>

record world =
  requests :: nat
  clock :: nat

definition validateInput :: "env \<Rightarrow> json \<Rightarrow> validation" where
  "validateInput e data = validate_with (StockInputSchema e) data"

definition validateOutput :: "env \<Rightarrow> json \<Rightarrow> validation" where
  "validateOutput e data = validate_with (StockAnalysisOutputSchema e) data"

definition generate :: "env \<Rightarrow> world \<Rightarrow> json \<Rightarrow> world \<times> (js_error + string)" where
  \<comment> \<open>\<^verbatim>\<open>invokeWithRetry(this.model, fullPrompt)\<close>\<close>
  "generate e w data =
     (let r = invokeWithRetry (config e) (model e) (requests w) (fullPrompt e data)
                (maxRetries (config e))
      in (w\<lparr>requests := requests w + calls r\<rparr>, outcome r))"

section \<open>The metadata block\<close>

definition json_of_key_metrics :: "key_metrics \<Rightarrow> json" where
  "json_of_key_metrics km =
     JObj [(''totalMetrics'', JNum (Fin (of_nat (totalMetrics km)))),
           (''passedCount'', JNum (Fin (of_nat (passedCount km)))),
           (''failedCount'', JNum (Fin (of_nat (failedCount km)))),
           (''passRate'', JStr (passRate km)),
           (''sisScore'', JNum (sisScore km)),
           (''ssisScore'', JNum (ssisScore km)),
           (''qualitativeRating'', JNum (qualitativeRating km)),
           (''passedMetrics'', JArr (map JStr (passedMetrics km))),
           (''failedMetrics'', JArr (map JStr (failedMetrics km)))]"

text \<open>
  The properties that \<^verbatim>\<open>{...v}\<close> copies: those of an object, the elements of an array
  and the code units of a string under their indices, none of any other value.
\<close>

definition indexed :: "json list \<Rightarrow> (string \<times> json) list" where
  "indexed xs = zip (map nat_to_string [0..<length xs]) xs"

fun spread :: "json \<Rightarrow> (string \<times> json) list" where
  "spread (JObj es) = es"
| "spread (JArr xs) = indexed xs"
| "spread (JStr s) = indexed (map (\<lambda>c. JStr [c]) s)"
| "spread _ = []"

definition metadata :: "env \<Rightarrow> string \<Rightarrow> stock_input \<Rightarrow> json \<Rightarrow> json" where
  "metadata e analysisDate d km =
     JObj [(''stockSymbol'', JStr (symbol (stock d))),
           (''stockName'', JStr (stock.name (stock d))),
           (''analysisDate'', JStr analysisDate),
           (''asOfDate'', JStr (asOf (stock d))),
           (''keyMetrics'', km),
           (''modelUsed'',
            JStr (case modelName e of
                    None \<Rightarrow> ''gemini-1.5-pro''
                  | Some n \<Rightarrow> if n = [] then ''gemini-1.5-pro'' else n)),
           (''version'', JStr ''1.0.0'')]"

definition enrich :: "env \<Rightarrow> string \<Rightarrow> stock_input \<Rightarrow> json \<Rightarrow> json \<Rightarrow> json" where
  \<comment> \<open>\<^verbatim>\<open>{ ...report, metadata: { ... } }\<close>\<close>
  "enrich e analysisDate d km report =
     JObj (AList.update ''metadata'' (metadata e analysisDate d km) (spread report))"

section \<open>langgraph-workflow.js: the workflow with the parallel step\<close>

record analysis_state =
  inputData :: json
  validatedInput :: bool
  keyMetrics :: "key_metrics option"
  rawAnalysis :: "string option"
  parsedReport :: json
  validatedReport :: bool
  finalReport :: json
  errors :: "string list"
  step :: string

text \<open>
  The channels. Each of them is declared by a bare function, which the library does not
  take for a reducer (a reducer is the \<^verbatim>\<open>value\<close> or the \<^verbatim>\<open>reducer\<close> of an object): such a
  channel keeps the last value written to it. Every node returns all the fields of the
  state, so \<open>channels x y\<close>, the state \<open>x\<close> after a node has returned \<open>y\<close>, is \<open>y\<close>.
\<close>

definition channels :: "analysis_state \<Rightarrow> analysis_state \<Rightarrow> analysis_state" where
  "channels x y = y"

datatype node =
  validate_input | parallel_processing | parse_response | enrich_report | error_handler

definition validate_input_node :: "env \<Rightarrow> analysis_state \<Rightarrow> analysis_state" where
  "validate_input_node e state =
     (let validation = validateInput e (inputData state)
      in if \<not> success validation
         then state\<lparr>validatedInput := False,
                    errors := analysis_state.errors state @ validation.errors validation,
                    step := ''error''\<rparr>
         else state\<lparr>validatedInput := True, step := ''parallel_processing''\<rparr>)"

text \<open>
  Both tasks of \<^verbatim>\<open>Promise.all\<close> are started; the first rejection, which is that of
  the metrics task when both fail, is the error caught.
\<close>

definition parallel_processing_node ::
  "env \<Rightarrow> world \<Rightarrow> analysis_state \<Rightarrow> world \<times> analysis_state" where
  "parallel_processing_node e w state =
     (let extracted = map_sum id extractKeyMetrics (typed_input (inputData state));
          (w', generated) = generate e w (inputData state)
      in case (extracted, generated) of
           (Inr km, Inr raw) \<Rightarrow>
             (w', state\<lparr>keyMetrics := Some km, rawAnalysis := Some raw, step := ''parse_response''\<rparr>)
         | (Inl err, _) \<Rightarrow>
             (w', state\<lparr>errors := analysis_state.errors state @ [message err], step := ''error''\<rparr>)
         | (Inr km, Inl err) \<Rightarrow>
             (w', state\<lparr>errors := analysis_state.errors state @ [message err], step := ''error''\<rparr>))"

text \<open>
  \<^verbatim>\<open>parseJsonResponse(state.rawAnalysis)\<close>: on null, \<^verbatim>\<open>response.trim()\<close> throws.
\<close>

definition parseJsonResponse_of :: "string option \<Rightarrow> js_error + json" where
  "parseJsonResponse_of raw =
     (case raw of
        None \<Rightarrow> Inl (TypeError ''Cannot read properties of null (reading 'trim')'')
      | Some response \<Rightarrow> parseJsonResponse response)"

definition parse_response_node :: "string \<Rightarrow> analysis_state \<Rightarrow> analysis_state" where
  "parse_response_node next_step state =
     (case parseJsonResponse_of (rawAnalysis state) of
        Inr parsed \<Rightarrow> state\<lparr>parsedReport := parsed, step := next_step\<rparr>
      | Inl err \<Rightarrow>
          state\<lparr>errors := analysis_state.errors state @ [''Parse error: '' @ message err],
                step := ''error''\<rparr>)"

definition enrich_report_node :: "analysis_state \<Rightarrow> analysis_state" where
  \<comment> \<open>Return ONLY the parsed report from the AI, no extra metadata\<close>
  "enrich_report_node state = state\<lparr>finalReport := parsedReport state, step := ''complete''\<rparr>"

definition error_report :: "string list \<Rightarrow> json" where
  "error_report errs =
     JObj [(''error'', JBool True), (''errors'', JArr (map JStr errs)),
           (''message'', JStr ''Analysis failed'')]"

definition error_node :: "analysis_state \<Rightarrow> analysis_state" where
  "error_node state =
     state\<lparr>finalReport := error_report (analysis_state.errors state), step := ''complete''\<rparr>"

fun run_node :: "env \<Rightarrow> node \<Rightarrow> world \<Rightarrow> analysis_state \<Rightarrow> world \<times> analysis_state" where
  "run_node e validate_input w state = (w, validate_input_node e state)"
| "run_node e parallel_processing w state = parallel_processing_node e w state"
| "run_node e parse_response w state = (w, parse_response_node ''enrich_report'' state)"
| "run_node e enrich_report w state = (w, enrich_report_node state)"
| "run_node e error_handler w state = (w, error_node state)"

text \<open>The edges; \<open>None\<close> is \<^verbatim>\<open>END\<close>.\<close>

fun next_node :: "node \<Rightarrow> analysis_state \<Rightarrow> node option" where
  "next_node validate_input state =
     Some (if validatedInput state then parallel_processing else error_handler)"
| "next_node parallel_processing state = Some parse_response"
| "next_node parse_response state = Some enrich_report"
| "next_node enrich_report state = None"
| "next_node error_handler state = None"

text \<open>
  One step of the compiled graph: the node runs on the state, what it returns is written
  to the channels, and the edge from the node is followed.
\<close>

definition graph_step ::
  "env \<Rightarrow> node \<times> world \<times> analysis_state \<Rightarrow> node option \<times> world \<times> analysis_state" where
  "graph_step e c =
     (case c of (n, w, state) \<Rightarrow>
        let (w', returned) = run_node e n w state;
            state' = channels state returned
        in (next_node n state', w', state'))"

fun rank :: "node \<Rightarrow> nat" where
  "rank validate_input = 3"
| "rank parallel_processing = 2"
| "rank parse_response = 1"
| "rank enrich_report = 0"
| "rank error_handler = 0"

function invoke_from :: "env \<Rightarrow> node \<Rightarrow> world \<Rightarrow> analysis_state \<Rightarrow> world \<times> analysis_state" where
  "invoke_from e n w state =
     (case graph_step e (n, w, state) of
        (None, w', state') \<Rightarrow> (w', state')
      | (Some n', w', state') \<Rightarrow> invoke_from e n' w' state')"
  by pat_completeness auto
termination
proof (relation "measure (\<lambda>(e, n, w, state). rank n)")
  fix e n w state x1 x2 w' state' n'
  assume "(x1, x2) = graph_step e (n, w, state)" and "(w', state') = x2" and "x1 = Some n'"
  then have "next_node n state' = Some n'"
    by (auto simp: graph_step_def Let_def split: prod.splits)
  then have "rank n' < rank n"
    by (cases n) auto
  then show "((e, n', w', state'), e, n, w, state) \<in> measure (\<lambda>(e, n, w, state). rank n)"
    by simp
qed simp

declare invoke_from.simps [simp del]

definition initialState :: "json \<Rightarrow> analysis_state" where
  "initialState data =
     \<lparr>inputData = data, validatedInput = False, keyMetrics = None, rawAnalysis = None,
      parsedReport = JNull, validatedReport = False, finalReport = JNull, errors = [],
      step = ''init''\<rparr>"

definition invoke :: "env \<Rightarrow> world \<Rightarrow> json \<Rightarrow> world \<times> analysis_state" where
  \<comment> \<open>\<^verbatim>\<open>this.graph.invoke(initialState)\<close>, entered at \<^verbatim>\<open>validate_input\<close>\<close>
  "invoke e w data = invoke_from e validate_input w (initialState data)"

definition execute :: "env \<Rightarrow> world \<Rightarrow> json \<Rightarrow> world \<times> json" where
  "execute e w data = (case invoke e w data of (w', result) \<Rightarrow> (w', finalReport result))"

section \<open>The workflow with seven nodes\<close>

text \<open>
  The other definition of the workflow runs the steps one after the other, validates the
  parsed report and adds the metadata block. Its nodes \<^verbatim>\<open>validate_input\<close>,
  \<^verbatim>\<open>parse_response\<close> and \<^verbatim>\<open>error\<close> are those above but for the next step that they
  name.
\<close>

datatype node7 =
    validate_input7 | extract_metrics7 | generate_analysis7 | parse_response7
  | validate_output7 | enrich_report7 | error7

definition validate_input_node7 :: "env \<Rightarrow> analysis_state \<Rightarrow> analysis_state" where
  "validate_input_node7 e state =
     (let validation = validateInput e (inputData state)
      in if \<not> success validation
         then state\<lparr>validatedInput := False,
                    errors := analysis_state.errors state @ validation.errors validation,
                    step := ''error''\<rparr>
         else state\<lparr>validatedInput := True, step := ''extract_metrics''\<rparr>)"

definition extract_metrics_node7 :: "env \<Rightarrow> analysis_state \<Rightarrow> js_error + analysis_state" where
  "extract_metrics_node7 e state =
     map_sum id (\<lambda>d. state\<lparr>keyMetrics := Some (extractKeyMetrics d), step := ''generate_analysis''\<rparr>)
       (typed_input (inputData state))"

definition generate_analysis_node7 ::
  "env \<Rightarrow> world \<Rightarrow> analysis_state \<Rightarrow> world \<times> analysis_state" where
  "generate_analysis_node7 e w state =
     (let (w', response) = generate e w (inputData state)
      in case response of
           Inr raw \<Rightarrow> (w', state\<lparr>rawAnalysis := Some raw, step := ''parse_response''\<rparr>)
         | Inl err \<Rightarrow>
             (w', state\<lparr>errors := analysis_state.errors state @ [message err], step := ''error''\<rparr>))"

definition validate_output_node7 :: "env \<Rightarrow> analysis_state \<Rightarrow> analysis_state" where
  "validate_output_node7 e state =
     state\<lparr>validatedReport := success (validateOutput e (parsedReport state)),
            step := ''enrich_report''\<rparr>"

definition enrich_report_node7 ::
  "env \<Rightarrow> world \<Rightarrow> analysis_state \<Rightarrow> js_error + world \<times> analysis_state" where
  "enrich_report_node7 e w state =
     (case typed_input (inputData state) of
        Inl err \<Rightarrow> Inl err
      | Inr d \<Rightarrow>
          Inr (w\<lparr>clock := clock w + 1\<rparr>,
               state\<lparr>finalReport :=
                        enrich e (Date_now e (clock w)) d
                          (case keyMetrics state of None \<Rightarrow> JNull | Some km \<Rightarrow> json_of_key_metrics km)
                          (parsedReport state),
                      step := ''complete''\<rparr>))"

fun run_node7 ::
  "env \<Rightarrow> node7 \<Rightarrow> world \<Rightarrow> analysis_state \<Rightarrow> js_error + world \<times> analysis_state" where
  "run_node7 e validate_input7 w state = Inr (w, validate_input_node7 e state)"
| "run_node7 e extract_metrics7 w state = map_sum id (Pair w) (extract_metrics_node7 e state)"
| "run_node7 e generate_analysis7 w state = Inr (generate_analysis_node7 e w state)"
| "run_node7 e parse_response7 w state = Inr (w, parse_response_node ''validate_output'' state)"
| "run_node7 e validate_output7 w state = Inr (w, validate_output_node7 e state)"
| "run_node7 e enrich_report7 w state = enrich_report_node7 e w state"
| "run_node7 e error7 w state = Inr (w, error_node state)"

fun next_node7 :: "node7 \<Rightarrow> analysis_state \<Rightarrow> node7 option" where
  "next_node7 validate_input7 state =
     Some (if validatedInput state then extract_metrics7 else error7)"
| "next_node7 extract_metrics7 state = Some generate_analysis7"
| "next_node7 generate_analysis7 state = Some parse_response7"
| "next_node7 parse_response7 state = Some validate_output7"
| "next_node7 validate_output7 state = Some enrich_report7"
| "next_node7 enrich_report7 state = None"
| "next_node7 error7 state = None"

fun rank7 :: "node7 \<Rightarrow> nat" where
  "rank7 validate_input7 = 5"
| "rank7 extract_metrics7 = 4"
| "rank7 generate_analysis7 = 3"
| "rank7 parse_response7 = 2"
| "rank7 validate_output7 = 1"
| "rank7 enrich_report7 = 0"
| "rank7 error7 = 0"

function invoke_from7 ::
  "env \<Rightarrow> node7 \<Rightarrow> world \<Rightarrow> analysis_state \<Rightarrow> js_error + world \<times> analysis_state" where
  "invoke_from7 e n w state =
     (case run_node7 e n w state of
        Inl err \<Rightarrow> Inl err
      | Inr (w', returned) \<Rightarrow>
          (case next_node7 n (channels state returned) of
             None \<Rightarrow> Inr (w', channels state returned)
           | Some n' \<Rightarrow> invoke_from7 e n' w' (channels state returned)))"
  by pat_completeness auto
termination
proof (relation "measure (\<lambda>(e, n, w, state). rank7 n)")
  fix e n w state x y w' returned n'
  assume "next_node7 n (channels state returned) = Some n'"
  then have "rank7 n' < rank7 n"
    by (cases n) auto
  then show "((e, n', w', channels state returned), e, n, w, state) \<in>
             measure (\<lambda>(e, n, w, state). rank7 n)"
    by simp
qed simp

declare invoke_from7.simps [simp del]

definition execute7 :: "env \<Rightarrow> world \<Rightarrow> json \<Rightarrow> js_error + world \<times> json" where
  "execute7 e w data =
     map_sum id (\<lambda>(w', result). (w', finalReport result))
       (invoke_from7 e validate_input7 w (initialState data))"

section \<open>stock-analyzer.js: analyze and batchAnalyze\<close>

text \<open>
  \<^verbatim>\<open>v.k\<close> for the keys that the analyzer reads: a property of an object, undefined
  (\<open>None\<close>) on any other value but null, where the read throws.
\<close>

definition get_property :: "json \<Rightarrow> string \<Rightarrow> js_error + json option" where
  "get_property v k =
     (case v of
        JObj es \<Rightarrow> Inr (map_of es k)
      | JNull \<Rightarrow> Inl (TypeError (''Cannot read properties of null (reading '' @ [CHR 0x27] @ k @ [CHR 0x27] @ '')''))
      | _ \<Rightarrow> Inr None)"

record history_entry =
  timestamp :: string
  entry_symbol :: string
  recommendation :: "json option"
  score :: "json option"

text \<open>
  \<^verbatim>\<open>analyze\<close> on the history of the analyzer: the new history and what is returned or
  thrown.
\<close>

definition analyze ::
  "env \<Rightarrow> world \<Rightarrow> history_entry list \<Rightarrow> json \<Rightarrow> world \<times> history_entry list \<times> (js_error + json)" where
  "analyze e w analysisHistory data =
     (let inputValidation = validateInput e data
      in if \<not> success inputValidation then
           (w, analysisHistory,
            Inl (Error (''Input validation failed:'' @ [CHR 0x0A] @
                        join [CHR 0x0A] (validation.errors inputValidation))))
         else
           case typed_input data of
             Inl err \<Rightarrow> (w, analysisHistory, Inl err)
           | Inr d \<Rightarrow>
               let km = extractKeyMetrics d;
                   (w1, rawResponse) = generate e w data
               in case rawResponse of
                    Inl err \<Rightarrow> (w1, analysisHistory, Inl err)
                  | Inr raw \<Rightarrow>
                      (case parseJsonResponse raw of
                         Inl err \<Rightarrow>
                           (w1, analysisHistory,
                            Inl (Error (''Failed to generate valid JSON report: '' @ message err)))
                       | Inr report \<Rightarrow>
                           let outputValidation = validateOutput e report;
                               enrichedReport =
                                 enrich e (Date_now e (clock w1)) d (json_of_key_metrics km) report;
                               w2 = w1\<lparr>clock := clock w1 + 2\<rparr>
                           in case get_property report ''recommendation'' of
                                Inl err \<Rightarrow> (w2, analysisHistory, Inl err)
                              | Inr recom \<Rightarrow>
                                  (case get_property report ''overallScore'' of
                                     Inl err \<Rightarrow> (w2, analysisHistory, Inl err)
                                   | Inr sc \<Rightarrow>
                                       (w2,
                                        analysisHistory @
                                          [\<lparr>timestamp = Date_now e (clock w1 + 1),
                                            entry_symbol = symbol (stock d),
                                            recommendation = recom, score = sc\<rparr>],
                                        Inr enrichedReport))))"

text \<open>
  \<^verbatim>\<open>stockDataArray[i]?.stock?.symbol || 'Unknown'\<close>: the symbol when it is there and
  is not null, false, zero, NaN or the empty string.
\<close>

definition optional_property :: "json \<Rightarrow> string \<Rightarrow> json" where
  \<comment> \<open>\<^verbatim>\<open>v?.k\<close>, undefined being taken for null\<close>
  "optional_property v k = (case v of JObj es \<Rightarrow> (case map_of es k of None \<Rightarrow> JNull | Some x \<Rightarrow> x) | _ \<Rightarrow> JNull)"

definition falsy :: "json \<Rightarrow> bool" where
  "falsy v =
     (v = JNull \<or> v = JBool False \<or> v = JNum (Fin 0) \<or> v = JNum NaN \<or> v = JStr [])"

definition symbol_hint :: "json \<Rightarrow> json" where
  "symbol_hint data =
     (let s = optional_property (optional_property data ''stock'') ''symbol''
      in if falsy s then JStr ''Unknown'' else s)"

datatype batch_result =
    Succeeded json
  | Failed string json

definition is_success :: "batch_result \<Rightarrow> bool" where
  \<comment> \<open>the \<^verbatim>\<open>success\<close> flag of a result\<close>
  "is_success r = (case r of Succeeded _ \<Rightarrow> True | Failed _ _ \<Rightarrow> False)"

definition to_result :: "json \<Rightarrow> js_error + json \<Rightarrow> batch_result" where
  "to_result data r =
     (case r of Inr result \<Rightarrow> Succeeded result | Inl err \<Rightarrow> Failed (message err) (symbol_hint data))"

text \<open>
  The loop of \<^verbatim>\<open>batchAnalyze\<close> from item \<open>i\<close> on, with the results pushed so far.
\<close>

fun batch_loop ::
  "env \<Rightarrow> world \<Rightarrow> history_entry list \<Rightarrow> json list \<Rightarrow> batch_result list \<Rightarrow>
   world \<times> history_entry list \<times> batch_result list" where
  "batch_loop e w h [] results = (w, h, results)"
| "batch_loop e w h (x # xs) results =
     (case analyze e w h x of
        (w', h', r) \<Rightarrow> batch_loop e w' h' xs (results @ [to_result x r]))"

definition batchAnalyze ::
  "env \<Rightarrow> world \<Rightarrow> history_entry list \<Rightarrow> json list \<Rightarrow>
   world \<times> history_entry list \<times> batch_result list" where
  "batchAnalyze e w analysisHistory stockDataArray =
     batch_loop e w analysisHistory stockDataArray []"

section \<open>Objects in a markdown fence\<close>

text \<open>
  The objects of the round trip: every number in them is an integer of magnitude below
  \<open>2 ^ 53\<close>, and no object has a key twice.
\<close>

fun well_formed :: "json \<Rightarrow> bool" where
  "well_formed (JNum n) =
     (case n of Fin x \<Rightarrow> x = of_int \<lfloor>x\<rfloor> \<and> \<bar>x\<bar> < 2 ^ 53 | _ \<Rightarrow> False)"
| "well_formed (JArr xs) = (\<forall>x\<in>set xs. well_formed x)"
| "well_formed (JObj es) = (distinct (map fst es) \<and> (\<forall>kv\<in>set es. well_formed (snd kv)))"
| "well_formed _ = True"


text \<open>The tokens that the text of a value consists of.\<close>

fun tokens_of :: "json \<Rightarrow> token list" where
  "tokens_of JNull = [TNull]"
| "tokens_of (JBool b) = [if b then TTrue else TFalse]"
| "tokens_of (JNum (Fin x)) = [TNumber x]"
| "tokens_of (JNum _) = [TNull]"
| "tokens_of (JStr s) = [TString s]"
| "tokens_of (JArr xs) = LBracket # join [Comma] (map tokens_of xs) @ [RBracket]"
| "tokens_of (JObj es) =
     LBrace # join [Comma] (map (\<lambda>kv. TString (fst kv) # Colon # tokens_of (snd kv)) es) @
     [RBrace]"

text \<open>
  What may follow a number in the text of a value: nothing, a comma or a closing bracket.
\<close>

definition ends_number :: "string \<Rightarrow> bool" where
  "ends_number rest =
     (rest = [] \<or> hd rest = CHR '','' \<or> hd rest = CHR '']'' \<or> hd rest = CHR ''}'')"

text \<open>
  The automaton after the tokens of the value \<open>v\<close>, read on the stack \<open>st\<close>, with the
  tokens \<open>ts\<close> to follow.
\<close>

definition consumed :: "json \<Rightarrow> frame list \<Rightarrow> token list \<Rightarrow> parse_result" where
  "consumed v st ts = (case reduce v st of None \<Rightarrow> UnexpectedToken | Some c \<Rightarrow> run c ts)"

section \<open>Concrete inputs\<close>

definition group_of :: "bool option list \<Rightarrow> metric_group" where
  "group_of flags = \<lparr>metrics = map (\<lambda>f. \<lparr>metric.name = ''m'', pass = f\<rparr>) flags\<rparr>"

definition input_of :: "bool option list \<Rightarrow> bool option list \<Rightarrow> bool option list \<Rightarrow> stock_input" where
  "input_of fr ar tc =
     \<lparr>stock = \<lparr>symbol = ''TBD'', name = ''To Be Determined'', asOf = ''2024-01-15''\<rparr>,
      quantitative = \<lparr>fundamentalResilience = group_of fr, asymmetricRiskReward = group_of ar,
                      technicalConfirmation = group_of tc\<rparr>,
      sis = \<lparr>overall = Fin 65\<rparr>, ssis = \<lparr>overall = Fin 72\<rparr>,
      qualitative = \<lparr>overallRating = Fin (9 / 2)\<rparr>\<rparr>"

text \<open>A service that is down for the first \<open>n\<close> requests and answers \<open>text\<close> afterwards.\<close>

definition down_for :: "nat \<Rightarrow> string \<Rightarrow> gemini" where
  "down_for n text k prompt = (if k < n then Inl ''503 Service Unavailable'' else Inr text)"

text \<open>
  Inputs: a metric, an input with the given properties of \<^verbatim>\<open>stock\<close>, one that has
  \<^verbatim>\<open>stock.name\<close> and one that lacks it; and the collaborators around a given service,
  with the schemas of validators.js.
\<close>

definition metric_of :: "string \<Rightarrow> bool \<Rightarrow> json" where
  "metric_of n flag = JObj [(''name'', JStr n), (''value'', JNum (Fin 3)), (''pass'', JBool flag)]"

definition input_with :: "(string \<times> json) list \<Rightarrow> json" where
  "input_with stock_properties =
     JObj [
       (''stock'', JObj stock_properties),
       (''quantitative'', JObj [
          (''fundamentalResilience'', JObj [
             (''overall'', JStr ''Pass''),
             (''metrics'', JArr [metric_of ''FCF Yield'' True, metric_of ''Net Debt/EBITDA'' False])]),
          (''asymmetricRiskReward'', JObj [
             (''overall'', JStr ''Pass''),
             (''metrics'', JArr [metric_of ''Forward P/E'' True])]),
          (''technicalConfirmation'', JObj [
             (''overall'', JStr ''Pass''),
             (''metrics'', JArr [])]),
          (''riskSensitivityAlignment'', JObj [
             (''overall'', JStr ''Mixed''),
             (''signals'', JArr [JObj [(''name'', JStr ''FCF Yield''), (''pass'', JBool True)]])])]),
       (''sis'', JObj [(''overall'', JNum (Fin 65)), (''stocks'', JArr [])]),
       (''ssis'', JObj [(''overall'', JNum (Fin 72)), (''peers'', JArr [])]),
       (''qualitative'', JObj [
          (''overallRating'', JNum (Fin (9 / 2))),
          (''criteria'', JArr [
             JObj [(''name'', JStr ''Investment Process''), (''score'', JNum (Fin 4)),
                   (''notes'', JNull)]])]),
       (''peerComparison'', JObj [(''baseSymbol'', JStr ''TBD''), (''peers'', JArr [])])]"

definition named_input :: json where
  "named_input =
     input_with [(''symbol'', JStr ''TBD''), (''name'', JStr ''To Be Determined''),
                 (''asOf'', JStr ''2024-01-15''), (''overallResult'', JStr ''Mixed'')]"

definition nameless_input :: json where
  "nameless_input =
     input_with [(''symbol'', JStr ''TBD''), (''asOf'', JStr ''2024-01-15''),
                 (''overallResult'', JStr ''Mixed'')]"

definition env_of :: "gemini \<Rightarrow> env" where
  "env_of svc =
     \<lparr>config = CONFIG False,
      StockInputSchema = zod_parse StockInputSchema_zod,
      StockAnalysisOutputSchema = zod_parse StockAnalysisOutputSchema_zod,
      model = svc,
      modelName = Some ''gemini-2.5-flash'',
      fullPrompt = (\<lambda>data. ''Analyze: '' @ JSON_stringify data),
      Date_now = (\<lambda>k. ''2024-01-15T09:30:0'' @ nat_to_string k @ ''.000Z'')\<rparr>"

definition world0 :: world where
  "world0 = \<lparr>requests = 0, clock = 0\<rparr>"

definition short_report :: string where
  \<open>short_report = ''{"overallScore":70,"recommendation":"Watchlist"}''\<close>

section \<open>JSON.parse after JSON.stringify\<close>

text \<open>The rounding to binary64 leaves an integer below \<open>2 ^ 53\<close> as it is.\<close>

lemma round_half_even_int: "round_half_even (of_int j) = j"
  by (simp add: round_half_even_def)

lemma ilog2_int_le:
  assumes "0 < m" "m < 2 ^ 53"
  shows "ilog2 (of_int m) \<le> 52"
proof -
  have "bitlen m \<le> 53"
    using assms by (simp add: bitlen_le_iff_power)
  moreover have "bitlen 1 = 1"
    by (simp add: bitlen_alt_def)
  ultimately show ?thesis
    by (simp add: ilog2_def Let_def)
qed

lemma to_double_int:
  assumes "\<bar>n\<bar> < 2 ^ 53"
  shows "to_double (of_int n) = Fin (of_int n)"
proof (cases "n = 0")
  case True
  then show ?thesis by (simp add: to_double_def)
next
  case False
  define m where "m = \<bar>n\<bar>"
  have m: "0 < m" "m < 2 ^ 53" using assms False by (simp_all add: m_def)
  define e where "e = max (ilog2 (of_int m)) (- 1022)"
  have e: "e \<le> 52" using ilog2_int_le [OF m] by (simp add: e_def)
  define k where "k = nat (52 - e)"
  have q: "(2::rat) powi (e - 52) = 1 / 2 ^ k"
    using e by (simp add: power_int_def k_def inverse_eq_divide power_one_over)
  have "rat_of_int m / (1 / 2 ^ k) = of_int (m * 2 ^ k)"
    by simp
  then have r: "round_half_even (rat_of_int m / (1 / 2 ^ k)) = m * 2 ^ k"
    using round_half_even_int by metis
  have abs: "\<bar>rat_of_int n\<bar> = of_int m"
    by (simp add: m_def)
  have big: "m * 2 ^ k \<noteq> 9007199254740992" if "e = 1023"
    using that e by simp
  have val: "rat_of_int (m * 2 ^ k) * (1 / 2 ^ k) = of_int m"
    by simp
  have nz: "rat_of_int n \<noteq> 0" using False by simp
  have no: "\<not> (1024 \<le> e \<or> e = 1023 \<and> m * 2 ^ k = 9007199254740992)"
    using e by simp
  have sgn: "(if 0 < rat_of_int n then rat_of_int m else - rat_of_int m) = of_int n"
    by (simp add: m_def)
  have "to_double (of_int n) =
        Fin (if 0 < rat_of_int n then rat_of_int (m * 2 ^ k) * (1 / 2 ^ k)
             else - (rat_of_int (m * 2 ^ k) * (1 / 2 ^ k)))"
    unfolding to_double_def Let_def abs e_def [symmetric] q r
    using nz no by (simp only: if_False if_True)
  then show ?thesis
    unfolding val using sgn by simp
qed

text \<open>The string token read from the text of a string is that string.\<close>

lemma of_char_digit: "d < 16 \<Longrightarrow> (of_char (hex_char d) :: nat) = (if d < 10 then 48 + d else 87 + d)"
  by (simp add: hex_char_def)

lemma hex_val_hex_char: "d < 16 \<Longrightarrow> hex_val (hex_char d) = Some d"
  unfolding hex_val_def Let_def
  by (simp add: of_char_digit)

lemma hex4_control:
  assumes "n < 32"
  shows "hex4 [CHR ''0'', CHR ''0'', hex_char (n div 16), hex_char (n mod 16)] = Some n"
proof -
  have a: "hex_val (hex_char (n div 16)) = Some (n div 16)"
    using assms by (intro hex_val_hex_char) simp
  have b: "hex_val (hex_char (n mod 16)) = Some (n mod 16)"
    by (intro hex_val_hex_char) simp
  have z: "hex_val CHR ''0'' = Some 0"
    by (simp add: hex_val_def)
  show ?thesis by (simp add: a b z)
qed

lemma lex_string_escaped:
  assumes "unescape e = Some c" "e \<noteq> CHR ''u''"
  shows "lex_string ([CHR 0x5C, e] @ following) = push c 2 (lex_string following)"
  using assms by simp

lemma lex_string_unicode:
  assumes "hex4 [a, b, x, y] = Some v"
  shows "lex_string ([CHR 0x5C, CHR ''u'', a, b, x, y] @ following) =
           push (char_of v) 6 (lex_string following)"
  using assms by simp

lemma lex_string_plain:
  assumes "c \<noteq> CHR 0x22" "c \<noteq> CHR 0x5C" "\<not> (of_char c :: nat) < 32"
  shows "lex_string ([c] @ following) = push c 1 (lex_string following)"
  using assms by simp

lemma lex_string_char:
  "lex_string (quote_char c @ following) = push c (length (quote_char c)) (lex_string following)"
proof -
  consider "c = CHR 0x22" | "c = CHR 0x5C" | "c = CHR 0x08" | "c = CHR 0x0C" | "c = CHR 0x0A"
    | "c = CHR 0x0D" | "c = CHR 0x09"
    | "c \<noteq> CHR 0x22" "c \<noteq> CHR 0x5C" "c \<noteq> CHR 0x08" "c \<noteq> CHR 0x0C" "c \<noteq> CHR 0x0A"
      "c \<noteq> CHR 0x0D" "c \<noteq> CHR 0x09"
    by blast
  then show ?thesis
  proof cases
    case 1
    have q: "quote_char c = [CHR 0x5C, CHR 0x22]" by (simp add: quote_char_def 1)
    have u: "unescape (CHR 0x22) = Some c" by (simp add: unescape_def 1)
    have len: "length [CHR 0x5C, e] = 2" for e :: char by simp
    show ?thesis unfolding q len by (rule lex_string_escaped [OF u]) simp
  next
    case 2
    have q: "quote_char c = [CHR 0x5C, CHR 0x5C]" by (simp add: quote_char_def 2)
    have u: "unescape (CHR 0x5C) = Some c" by (simp add: unescape_def 2)
    have len: "length [CHR 0x5C, e] = 2" for e :: char by simp
    show ?thesis unfolding q len by (rule lex_string_escaped [OF u]) simp
  next
    case 3
    have q: "quote_char c = [CHR 0x5C, CHR ''b'']" by (simp add: quote_char_def 3)
    have u: "unescape (CHR ''b'') = Some c" by (simp add: unescape_def 3)
    have len: "length [CHR 0x5C, e] = 2" for e :: char by simp
    show ?thesis unfolding q len by (rule lex_string_escaped [OF u]) simp
  next
    case 4
    have q: "quote_char c = [CHR 0x5C, CHR ''f'']" by (simp add: quote_char_def 4)
    have u: "unescape (CHR ''f'') = Some c" by (simp add: unescape_def 4)
    have len: "length [CHR 0x5C, e] = 2" for e :: char by simp
    show ?thesis unfolding q len by (rule lex_string_escaped [OF u]) simp
  next
    case 5
    have q: "quote_char c = [CHR 0x5C, CHR ''n'']" by (simp add: quote_char_def 5)
    have u: "unescape (CHR ''n'') = Some c" by (simp add: unescape_def 5)
    have len: "length [CHR 0x5C, e] = 2" for e :: char by simp
    show ?thesis unfolding q len by (rule lex_string_escaped [OF u]) simp
  next
    case 6
    have q: "quote_char c = [CHR 0x5C, CHR ''r'']" by (simp add: quote_char_def 6)
    have u: "unescape (CHR ''r'') = Some c" by (simp add: unescape_def 6)
    have len: "length [CHR 0x5C, e] = 2" for e :: char by simp
    show ?thesis unfolding q len by (rule lex_string_escaped [OF u]) simp
  next
    case 7
    have q: "quote_char c = [CHR 0x5C, CHR ''t'']" by (simp add: quote_char_def 7)
    have u: "unescape (CHR ''t'') = Some c" by (simp add: unescape_def 7)
    have len: "length [CHR 0x5C, e] = 2" for e :: char by simp
    show ?thesis unfolding q len by (rule lex_string_escaped [OF u]) simp
  next
    case 8
    show ?thesis
    proof (cases "(of_char c :: nat) < 32")
      case True
      have q: "quote_char c = [CHR 0x5C, CHR ''u'', CHR ''0'', CHR ''0'',
                 hex_char (of_char c div 16), hex_char (of_char c mod 16)]"
        using 8 True by (simp add: quote_char_def)
      have c: "char_of (of_char c :: nat) = c" by simp
      have len: "length [CHR 0x5C, CHR ''u'', CHR ''0'', CHR ''0'',
                 hex_char (of_char c div 16), hex_char (of_char c mod 16)] = 6"
        by simp
      show ?thesis
        unfolding q len using lex_string_unicode [OF hex4_control [OF True], of following]
        by (simp only: c)
    next
      case False
      have q: "quote_char c = [c]"
        using 8 False by (simp add: quote_char_def)
      have len: "length [c] = 1" by simp
      show ?thesis
        unfolding q len using lex_string_plain [OF 8(1) 8(2) False] .
    qed
  qed
qed

lemma lex_string_quote:
  "lex_string (concat (map quote_char s) @ CHR 0x22 # rest) =
     Lexed s (length (concat (map quote_char s)) + 1)"
proof (induction s)
  case Nil
  show ?case by simp
next
  case (Cons c s)
  show ?case
    using lex_string_char [of c "concat (map quote_char s) @ CHR 0x22 # rest"] Cons.IH
    by (simp add: push_def)
qed

lemma lex_quote_string: "tokenize (quote_string s @ rest) = TString s # tokenize rest"
  using lex_string_quote [of s rest]
  by (simp add: quote_string_def is_json_ws_def)

text \<open>The number token read from the decimal digits of an integer is that integer.\<close>

lemma is_digit_digit_char: "d < 10 \<Longrightarrow> is_digit (digit_char d)"
  by (simp add: is_digit_def digit_char_def)

lemma digit_val_digit_char: "d < 10 \<Longrightarrow> digit_val (digit_char d) = d"
  by (simp add: digit_val_def digit_char_def)

lemma digit_char_zero: "d < 10 \<Longrightarrow> (digit_char d = CHR ''0'') = (d = 0)"
proof -
  assume d: "d < 10"
  have "(digit_char d = CHR ''0'') = ((of_char (digit_char d) :: nat) = of_char (CHR ''0''))"
    by (simp only: of_char_eq_iff)
  also have "\<dots> = (48 + d = 48)"
    using d by (simp add: digit_char_def)
  finally show ?thesis by simp
qed

lemma digits_val_snoc: "digits_val (ds @ [c]) = 10 * digits_val ds + digit_val c"
  by (simp add: digits_val_def)

lemma nat_to_string_digits:
  "nat_to_string n \<noteq> [] \<and> (\<forall>c\<in>set (nat_to_string n). is_digit c) \<and>
   digits_val (nat_to_string n) = n \<and> ((hd (nat_to_string n) = CHR ''0'') = (n = 0))"
proof (induction n rule: nat_to_string.induct)
  case (1 n)
  show ?case
  proof (cases "n < 10")
    case True
    then have "nat_to_string n = [digit_char n]"
      by (simp add: nat_to_string.simps)
    with True show ?thesis
      by (simp add: is_digit_digit_char digit_val_digit_char digits_val_def digit_char_zero)
  next
    case False
    then have s: "nat_to_string n = nat_to_string (n div 10) @ [digit_char (n mod 10)]"
      by (subst nat_to_string.simps) simp
    from False have pos: "n div 10 \<noteq> 0" by simp
    from "1.IH" [OF False] pos False show ?thesis
      unfolding s
      by (simp add: is_digit_digit_char digit_val_digit_char digits_val_snoc)
  qed
qed

lemma ends_number_hd:
  "ends_number rest \<Longrightarrow> rest \<noteq> [] \<Longrightarrow>
   \<not> is_digit (hd rest) \<and> hd rest \<noteq> CHR ''.'' \<and> hd rest \<noteq> CHR ''e'' \<and> hd rest \<noteq> CHR ''E''"
  by (auto simp: ends_number_def is_digit_def)

lemma takeWhile_digits:
  assumes "\<forall>c\<in>set ds. is_digit c" "ends_number rest"
  shows "takeWhile is_digit (ds @ rest) = ds"
proof -
  have "takeWhile is_digit rest = []"
    using ends_number_hd [OF assms(2)] by (cases rest) auto
  with assms(1) show ?thesis by (simp add: takeWhile_append2)
qed

lemma lex_number_digits:
  assumes ds: "ds \<noteq> []" "\<forall>c\<in>set ds. is_digit c" "hd ds = CHR ''0'' \<longrightarrow> ds = ''0''"
    and rest: "ends_number rest"
    and sign: "sgn_text = [] \<or> sgn_text = ''-''"
  shows "lex_number (sgn_text @ ds @ rest) =
           Lexed (if sgn_text = [] then of_nat (digits_val ds) else - of_nat (digits_val ds))
             (length sgn_text + length ds)"
proof -
  have hd_digit: "is_digit (hd ds)" using ds by (cases ds) auto
  then have nominus: "hd ds \<noteq> CHR ''-''" by (auto simp: is_digit_def)
  have s1: "(if (sgn_text @ ds @ rest) \<noteq> [] \<and> hd (sgn_text @ ds @ rest) = CHR ''-''
             then tl (sgn_text @ ds @ rest) else sgn_text @ ds @ rest) = ds @ rest"
    using sign ds(1) nominus by (auto simp: hd_append)
  have neg: "((sgn_text @ ds @ rest) \<noteq> [] \<and> hd (sgn_text @ ds @ rest) = CHR ''-'') = (sgn_text \<noteq> [])"
    using sign ds(1) nominus by (auto simp: hd_append)
  have tw: "takeWhile is_digit (ds @ rest) = ds"
    by (rule takeWhile_digits [OF ds(2) rest])
  have ip: "(if ds \<noteq> [] \<and> hd ds = CHR ''0'' then ''0'' else ds) = ds"
    using ds by auto
  have s1': "(if sgn_text \<noteq> [] then tl (sgn_text @ ds @ rest) else sgn_text @ ds @ rest) = ds @ rest"
    using sign by auto
  have ip': "(if hd ds = CHR ''0'' then ''0'' else ds) = ds"
    using ds by auto
  have s2: "drop (length ds) (ds @ rest) = rest" by simp
  have nofrac: "(rest \<noteq> [] \<and> hd rest = CHR ''.'') = False"
    and noexp: "(rest \<noteq> [] \<and> (hd rest = CHR ''e'' \<or> hd rest = CHR ''E'')) = False"
    using ends_number_hd [OF rest] by auto
  have nonempty: "(ds = []) = False" using ds(1) by simp
  have "lex_number (sgn_text @ ds @ rest) =
          Lexed (if sgn_text \<noteq> [] then - ((of_nat (digits_val ds) + of_nat (digits_val []) / 10 ^ length ([]::string)) * 10 powi int (digits_val []))
                 else (of_nat (digits_val ds) + of_nat (digits_val []) / 10 ^ length ([]::string)) * 10 powi int (digits_val []))
            (length (sgn_text @ ds @ rest) - length (drop (length ([]::string)) rest))"
    by (simp only: lex_number_def Let_def neg s1' tw ip' s2 nofrac noexp nonempty if_False
          if_True simp_thms)
  also have "\<dots> = Lexed (if sgn_text = [] then of_nat (digits_val ds) else - of_nat (digits_val ds))
             (length sgn_text + length ds)"
    by (simp add: digits_val_def)
  finally show ?thesis .
qed

lemma nat_to_string_zero: "nat_to_string 0 = ''0''"
  by code_simp

lemma lex_number_nat:
  assumes "ends_number rest" "sgn_text = [] \<or> sgn_text = ''-''"
  shows "lex_number (sgn_text @ nat_to_string n @ rest) =
           Lexed (if sgn_text = [] then of_nat n else - of_nat n)
             (length sgn_text + length (nat_to_string n))"
proof -
  from nat_to_string_digits [of n]
  have ne: "nat_to_string n \<noteq> []"
    and dg: "\<forall>c\<in>set (nat_to_string n). is_digit c"
    and dv: "digits_val (nat_to_string n) = n"
    and z: "(hd (nat_to_string n) = CHR ''0'') = (n = 0)"
    by blast+
  have lead: "hd (nat_to_string n) = CHR ''0'' \<longrightarrow> nat_to_string n = ''0''"
    using z nat_to_string_zero by auto
  show ?thesis
    using lex_number_digits [OF ne dg lead assms] by (simp only: dv)
qed

lemma lex_number_int:
  assumes "ends_number rest"
  shows "lex_number (int_to_string i @ rest) = Lexed (of_int i) (length (int_to_string i))"
proof (cases "i < 0")
  case True
  have t: "int_to_string i = ''-'' @ nat_to_string (nat (- i))"
    using True by (simp add: int_to_string_def)
  have v: "- rat_of_nat (nat (- i)) = of_int i"
    using True by simp
  show ?thesis
    unfolding t using lex_number_nat [OF assms, of "''-''" "nat (- i)"] v by simp
next
  case False
  have t: "int_to_string i = [] @ nat_to_string (nat i)"
    using False by (simp add: int_to_string_def)
  have v: "rat_of_nat (nat i) = of_int i"
    using False by simp
  show ?thesis
    unfolding t using lex_number_nat [OF assms, of "[]" "nat i"] v by simp
qed

text \<open>The tokens of the text of a value.\<close>

lemma join_concat: "join sep (x # xs) = x @ concat (map (\<lambda>y. sep @ y) xs)"
  by (induction xs arbitrary: x) auto

lemma lex_join:
  assumes each: "\<And>x rest. x \<in> set xs \<Longrightarrow> ends_number rest \<Longrightarrow> tokenize (f x @ rest) = g x @ tokenize rest"
    and close: "ends_number (c # rest)"
  shows "tokenize (join '','' (map f xs) @ c # rest) = join [Comma] (map g xs) @ tokenize (c # rest)"
  using each
proof (induction xs rule: induct_list012)
  case 1
  show ?case by simp
next
  case (2 x)
  then show ?case using close by simp
next
  case (3 x y zs)
  have e: "ends_number (CHR '','' # tl_text)" for tl_text
    by (simp add: ends_number_def)
  have "tokenize (f x @ CHR '','' # join '','' (map f (y # zs)) @ c # rest) =
        g x @ tokenize (CHR '','' # join '','' (map f (y # zs)) @ c # rest)"
    using "3.prems" [of x] e by simp
  moreover have "tokenize (join '','' (map f (y # zs)) @ c # rest) =
        join [Comma] (map g (y # zs)) @ tokenize (c # rest)"
    using "3.IH"(2) "3.prems" by simp
  ultimately show ?case
    by (simp add: is_json_ws_def)
qed

lemma lex_null: "tokenize (''null'' @ rest) = TNull # tokenize rest"
  by (simp add: is_json_ws_def is_digit_def lex_word_def startsWith_def)

lemma lex_true: "tokenize (''true'' @ rest) = TTrue # tokenize rest"
  by (simp add: is_json_ws_def is_digit_def lex_word_def startsWith_def)

lemma lex_false: "tokenize (''false'' @ rest) = TFalse # tokenize rest"
  by (simp add: is_json_ws_def is_digit_def lex_word_def startsWith_def)

lemma int_to_string_head:
  "\<exists>c cs. int_to_string i = c # cs \<and> (c = CHR ''-'' \<or> is_digit c)"
proof (cases "i < 0")
  case True
  then show ?thesis by (simp add: int_to_string_def)
next
  case False
  from nat_to_string_digits [of "nat i"] show ?thesis
    using False by (cases "nat_to_string (nat i)") (auto simp: int_to_string_def)
qed

lemma lex_number_start:
  assumes "c = CHR ''-'' \<or> is_digit c"
  shows "tokenize (c # cs) =
     (case lex_number (c # cs) of
        Lexed x n \<Rightarrow> TNumber x # tokenize (drop (n - 1) cs)
      | Truncated \<Rightarrow> [TTruncated]
      | Invalid \<Rightarrow> [TInvalid])"
proof -
  have "(of_char c :: nat) = 45 \<or> (48 \<le> (of_char c :: nat) \<and> (of_char c :: nat) \<le> 57)"
    using assms by (auto simp: is_digit_def)
  then have "\<not> is_json_ws c" "c \<noteq> CHR ''{''" "c \<noteq> CHR ''}''" "c \<noteq> CHR ''[''" "c \<noteq> CHR '']''"
    "c \<noteq> CHR '':''" "c \<noteq> CHR '',''" "c \<noteq> CHR 0x22"
    by (auto simp: is_json_ws_def)
  then show ?thesis using assms by simp
qed

lemma lex_int: "ends_number rest \<Longrightarrow> tokenize (int_to_string i @ rest) = TNumber (of_int i) # tokenize rest"
proof -
  assume e: "ends_number rest"
  obtain c cs where t: "int_to_string i = c # cs" and c: "c = CHR ''-'' \<or> is_digit c"
    using int_to_string_head by blast
  have "lex_number (c # cs @ rest) = Lexed (of_int i) (length (c # cs))"
    using lex_number_int [OF e, of i] by (simp add: t)
  then show ?thesis
    using lex_number_start [OF c, of "cs @ rest"] by (simp add: t)
qed

lemma lex_stringify:
  "well_formed v \<Longrightarrow> ends_number rest \<Longrightarrow> tokenize (JSON_stringify v @ rest) = tokens_of v @ tokenize rest"
proof (induction v arbitrary: rest)
  case JNull
  show ?case using lex_null by simp
next
  case (JBool b)
  show ?case using lex_true lex_false by (cases b) simp_all
next
  case (JNum n)
  then obtain x where n: "n = Fin x" and x: "x = of_int \<lfloor>x\<rfloor>"
    by (cases n) auto
  have "tokenize (int_to_string \<lfloor>x\<rfloor> @ rest) = TNumber (of_int \<lfloor>x\<rfloor>) # tokenize rest"
    by (rule lex_int [OF JNum.prems(2)])
  then show ?case using x by (simp add: n)
next
  case (JStr s)
  show ?case using lex_quote_string by simp
next
  case (JArr xs)
  have "tokenize (join '','' (map JSON_stringify xs) @ CHR '']'' # rest) =
        join [Comma] (map tokens_of xs) @ tokenize (CHR '']'' # rest)"
    using JArr by (intro lex_join) (auto simp: ends_number_def)
  then show ?case by (simp add: is_json_ws_def)
next
  case (JObj es)
  have each: "tokenize ((quote_string (fst kv) @ '':'' @ JSON_stringify (snd kv)) @ r) =
              (TString (fst kv) # Colon # tokens_of (snd kv)) @ tokenize r"
    if "kv \<in> set es" "ends_number r" for kv r
  proof -
    have wf: "well_formed (snd kv)" using JObj.prems(1) that(1) by simp
    have "snd kv \<in> Basic_BNFs.snds kv" by (cases kv) simp
    from JObj.IH [OF that(1) this wf that(2)]
    have "tokenize (JSON_stringify (snd kv) @ r) = tokens_of (snd kv) @ tokenize r" .
    then show ?thesis
      using lex_quote_string [of "fst kv" "'':'' @ JSON_stringify (snd kv) @ r"]
      by (simp add: is_json_ws_def)
  qed
  have "tokenize (join '','' (map (\<lambda>kv. quote_string (fst kv) @ '':'' @ JSON_stringify (snd kv)) es) @
             CHR ''}'' # rest) =
        join [Comma] (map (\<lambda>kv. TString (fst kv) # Colon # tokens_of (snd kv)) es) @
        tokenize (CHR ''}'' # rest)"
    using each by (intro lex_join) (auto simp: ends_number_def)
  then show ?case by (simp add: is_json_ws_def)
qed

text \<open>The automaton builds the value from its tokens.\<close>

lemma update_fresh: "k \<notin> fst ` set al \<Longrightarrow> AList.update k v al = al @ [(k, v)]"
  by (induction al) auto

lemma advance_first:
  assumes "t \<noteq> RBracket"
  shows "advance (MArrFirst, st) t = begin_value t st"
proof (cases st)
  case Nil
  then show ?thesis using assms by (cases t) simp_all
next
  case (Cons f st')
  then show ?thesis using assms by (cases f; cases t) simp_all
qed

lemma tokens_of_head:
  "\<exists>t ts. tokens_of v = t # ts \<and> t \<noteq> RBracket \<and> t \<noteq> TTruncated"
proof (cases v)
  case (JNum n)
  then show ?thesis by (cases n) auto
qed auto

lemma run_first_element:
  "run (MArrFirst, st) (tokens_of v @ ts) = run (MValue, st) (tokens_of v @ ts)"
proof -
  obtain t tl_tokens where "tokens_of v = t # tl_tokens" "t \<noteq> TTruncated" "t \<noteq> RBracket"
    using tokens_of_head by blast
  then show ?thesis using advance_first [of t st] by simp
qed

lemma run_elements:
  assumes "\<And>x st ts. x \<in> set xs \<Longrightarrow> run (MValue, st) (tokens_of x @ ts) = consumed x st ts"
  shows "run (MAfter, FArr acc # st)
           (concat (map (\<lambda>x. [Comma] @ tokens_of x) xs) @ RBracket # ts) =
         consumed (JArr (acc @ xs)) st ts"
  using assms
proof (induction xs arbitrary: acc)
  case Nil
  show ?case by (simp add: consumed_def)
next
  case (Cons x xs)
  have "run (MValue, FArr acc # st)
          (tokens_of x @ concat (map (\<lambda>x. [Comma] @ tokens_of x) xs) @ RBracket # ts) =
        run (MAfter, FArr (acc @ [x]) # st)
          (concat (map (\<lambda>x. [Comma] @ tokens_of x) xs) @ RBracket # ts)"
    using Cons.prems [of x] by (simp add: consumed_def)
  also have "\<dots> = consumed (JArr ((acc @ [x]) @ xs)) st ts"
    using Cons.prems by (intro Cons.IH) simp
  finally show ?case by simp
qed

lemma run_entry:
  assumes "run (MValue, FKey k # FObj acc # st) (tokens_of v @ ts) =
           consumed v (FKey k # FObj acc # st) ts"
    and "k \<notin> fst ` set acc" and "m = MObjFirst \<or> m = MKey"
  shows "run (m, FObj acc # st) (TString k # Colon # tokens_of v @ ts) =
         run (MAfter, FObj (acc @ [(k, v)]) # st) ts"
  using assms by (auto simp: consumed_def update_fresh)

lemma run_entries:
  assumes "\<And>kv st ts. kv \<in> set es \<Longrightarrow>
             run (MValue, st) (tokens_of (snd kv) @ ts) = consumed (snd kv) st ts"
    and "distinct (map fst (acc @ es))"
  shows "run (MAfter, FObj acc # st)
           (concat (map (\<lambda>kv. [Comma] @ TString (fst kv) # Colon # tokens_of (snd kv)) es) @
            RBrace # ts) =
         consumed (JObj (acc @ es)) st ts"
  using assms
proof (induction es arbitrary: acc)
  case Nil
  show ?case by (simp add: consumed_def)
next
  case (Cons kv es)
  obtain k v where kv: "kv = (k, v)" by (cases kv)
  have fresh: "k \<notin> fst ` set acc" using Cons.prems(2) by (auto simp: kv)
  have "run (MKey, FObj acc # st)
          (TString k # Colon # tokens_of v @
           concat (map (\<lambda>kv. [Comma] @ TString (fst kv) # Colon # tokens_of (snd kv)) es) @
           RBrace # ts) =
        run (MAfter, FObj (acc @ [(k, v)]) # st)
          (concat (map (\<lambda>kv. [Comma] @ TString (fst kv) # Colon # tokens_of (snd kv)) es) @
           RBrace # ts)"
    using Cons.prems(1) [of kv] fresh by (intro run_entry) (simp_all add: kv)
  also have "\<dots> = consumed (JObj ((acc @ [(k, v)]) @ es)) st ts"
    using Cons.prems by (intro Cons.IH) (simp_all add: kv)
  finally show ?case by (simp add: kv)
qed

lemma run_tokens:
  "well_formed v \<Longrightarrow> run (MValue, st) (tokens_of v @ ts) = consumed v st ts"
proof (induction v arbitrary: st ts)
  case JNull
  show ?case by (simp add: consumed_def)
next
  case (JBool b)
  show ?case by (simp add: consumed_def)
next
  case (JNum n)
  then obtain x where n: "n = Fin x" and x: "x = of_int \<lfloor>x\<rfloor>" and small: "\<bar>x\<bar> < 2 ^ 53"
    by (cases n) auto
  have "\<bar>\<lfloor>x\<rfloor>\<bar> < 2 ^ 53"
  proof -
    have "rat_of_int \<bar>\<lfloor>x\<rfloor>\<bar> < 2 ^ 53" using x small by (metis of_int_abs)
    then show ?thesis by (metis of_int_less_numeral_power_cancel_iff)
  qed
  then have "to_double (of_int \<lfloor>x\<rfloor>) = Fin (of_int \<lfloor>x\<rfloor>)"
    by (rule to_double_int)
  then have "to_double x = Fin x" using x by simp
  then show ?case by (simp add: consumed_def n)
next
  case (JStr s)
  show ?case by (simp add: consumed_def)
next
  case (JArr xs)
  have each: "run (MValue, st) (tokens_of x @ ts) = consumed x st ts" if "x \<in> set xs" for x st ts
    using JArr that by simp
  show ?case
  proof (cases xs)
    case Nil
    then show ?thesis by (simp add: consumed_def)
  next
    case (Cons x xs')
    have "run (MValue, st) (tokens_of (JArr xs) @ ts) =
          run (MArrFirst, FArr [] # st)
            (tokens_of x @ concat (map (\<lambda>x. [Comma] @ tokens_of x) xs') @ RBracket # ts)"
      by (simp add: Cons join_concat comp_def)
    also have "\<dots> = run (MValue, FArr [] # st)
            (tokens_of x @ concat (map (\<lambda>x. [Comma] @ tokens_of x) xs') @ RBracket # ts)"
      by (rule run_first_element)
    also have "\<dots> = run (MAfter, FArr [x] # st)
            (concat (map (\<lambda>x. [Comma] @ tokens_of x) xs') @ RBracket # ts)"
      using each [of x] by (simp add: Cons consumed_def)
    also have "\<dots> = consumed (JArr ([x] @ xs')) st ts"
      using each by (intro run_elements) (simp add: Cons)
    finally show ?thesis by (simp add: Cons)
  qed
next
  case (JObj es)
  have each: "run (MValue, st) (tokens_of (snd kv) @ ts) = consumed (snd kv) st ts"
    if "kv \<in> set es" for kv st ts
  proof -
    have "snd kv \<in> Basic_BNFs.snds kv" by (cases kv) simp
    then show ?thesis using JObj.IH [OF that] JObj.prems that by simp
  qed
  show ?case
  proof (cases es)
    case Nil
    then show ?thesis by (simp add: consumed_def)
  next
    case (Cons kv es')
    obtain k v where kv: "kv = (k, v)" by (cases kv)
    have "run (MValue, st) (tokens_of (JObj es) @ ts) =
          run (MObjFirst, FObj [] # st)
            (TString k # Colon # tokens_of v @
             concat (map (\<lambda>kv. [Comma] @ TString (fst kv) # Colon # tokens_of (snd kv)) es') @
             RBrace # ts)"
      by (simp add: Cons kv join_concat comp_def)
    also have "\<dots> = run (MAfter, FObj ([] @ [(k, v)]) # st)
            (concat (map (\<lambda>kv. [Comma] @ TString (fst kv) # Colon # tokens_of (snd kv)) es') @
             RBrace # ts)"
      using each [of kv] by (intro run_entry) (simp_all add: Cons kv)
    also have "\<dots> = consumed (JObj (([] @ [(k, v)]) @ es')) st ts"
      using each JObj.prems by (intro run_entries) (simp_all add: Cons kv)
    finally show ?thesis by (simp add: Cons kv)
  qed
qed

lemma JSON_parse_stringify: "well_formed v \<Longrightarrow> JSON_parse (JSON_stringify v) = Inr v"
  using lex_stringify [of v "[]"] run_tokens [of v "[]" "[]"]
  by (simp add: JSON_parse_def consumed_def ends_number_def)

section \<open>The round trip through a markdown fence\<close>

lemma trim_id:
  assumes "s \<noteq> []" "\<not> is_space (hd s)" "\<not> is_space (last s)"
  shows "trim s = s"
proof -
  have a: "dropWhile is_space s = s"
    using assms by (cases s) auto
  have "dropWhile is_space (rev s) = rev s"
    using assms by (cases "rev s") (auto simp: last_rev [symmetric] hd_rev)
  then show ?thesis by (simp add: trim_def a)
qed

lemma stringify_object_shape:
  "\<exists>m. JSON_stringify (JObj es) = CHR ''{'' # m @ [CHR ''}'']"
  by simp

lemma match_object_braces:
  "match_object (CHR ''{'' # m @ [CHR ''}'']) = Some (CHR ''{'' # m @ [CHR ''}''])"
  by (simp add: match_object_def)




lemma clean_response_object:
  "clean_response (CHR ''{'' # m @ [CHR ''}'']) = CHR ''{'' # m @ [CHR ''}'']"
proof -
  let ?body = "CHR ''{'' # m @ [CHR ''}'']"
  have t: "trim ?body = ?body"
    by (rule trim_id) (simp_all add: is_space_def)
  have s: "\<not> startsWith ?body ''```''"
    by (simp add: startsWith_def)
  show ?thesis
    unfolding clean_response_def Let_def
    using t s match_object_braces [of m] by simp
qed

lemma parseJsonResponse_stringify:
  assumes "well_formed (JObj es)"
  shows "parseJsonResponse (JSON_stringify (JObj es)) = Inr (JObj es)"
proof -
  obtain m where m: "JSON_stringify (JObj es) = CHR ''{'' # m @ [CHR ''}'']"
    using stringify_object_shape by blast
  have "clean_response (JSON_stringify (JObj es)) = JSON_stringify (JObj es)"
    unfolding m by (rule clean_response_object)
  moreover have "JSON_parse (JSON_stringify (JObj es)) = Inr (JObj es)"
    by (rule JSON_parse_stringify [OF assms])
  ultimately show ?thesis
    by (simp add: parseJsonResponse_def parseJsonResponse_with_def)
qed



section \<open>Properties of invokeWithRetry\<close>

lemma retry_loop_success:
  assumes "attempt \<le> k" "k < retries"
    and "\<forall>j. attempt \<le> j \<and> j < k \<longrightarrow> isl (svc (t + j) prompt)"
    and "svc (t + k) prompt = Inr text"
  shows "retry_loop svc t prompt retries attempt lastError ws =
           \<lparr>calls = k + 1, waits = ws @ map (\<lambda>j. 2 ^ j * 1000) [attempt..<k], outcome = Inr text\<rparr>"
  using assms
proof (induction "k - attempt" arbitrary: attempt lastError ws)
  case 0
  then have "attempt = k" by simp
  with 0 show ?case by (simp add: retry_loop.simps)
next
  case (Suc d)
  then have lt: "attempt < k" by simp
  with Suc.prems obtain msg where msg: "svc (t + attempt) prompt = Inl msg"
    by (metis le_refl sum.collapse(1))
  have step: "retry_loop svc t prompt retries attempt lastError ws =
      retry_loop svc t prompt retries (attempt + 1) (Some msg) (ws @ [2 ^ attempt * 1000])"
    using lt Suc.prems(2) msg by (subst retry_loop.simps) simp
  have "retry_loop svc t prompt retries (attempt + 1) (Some msg) (ws @ [2 ^ attempt * 1000]) =
      \<lparr>calls = k + 1, waits = (ws @ [2 ^ attempt * 1000]) @ map (\<lambda>j. 2 ^ j * 1000) [attempt + 1..<k],
       outcome = Inr text\<rparr>"
    using Suc.hyps(2) lt Suc.prems by (intro Suc.hyps(1)) auto
  then show ?case using step lt by (simp add: upt_conv_Cons)
qed

lemma retry_loop_failure:
  assumes "attempt \<le> retries"
    and "\<forall>j. attempt \<le> j \<and> j < retries \<longrightarrow> isl (svc (t + j) prompt)"
  shows "retry_loop svc t prompt retries attempt lastError ws =
           \<lparr>calls = retries,
            waits = ws @ map (\<lambda>j. 2 ^ j * 1000) [attempt..<retries - 1],
            outcome =
              (case (if attempt < retries then Some (projl (svc (t + (retries - 1)) prompt)) else lastError) of
                 None \<Rightarrow> Inl (TypeError ''Cannot read properties of undefined (reading 'message')'')
               | Some m \<Rightarrow> Inl (Error (''Failed after '' @ nat_to_string retries @ '' attempts: '' @ m)))\<rparr>"
  using assms
proof (induction "retries - attempt" arbitrary: attempt lastError ws)
  case 0
  then have "attempt = retries" by simp
  then show ?case by (simp add: retry_loop.simps)
next
  case (Suc d)
  then have lt: "attempt < retries" by simp
  with Suc.prems obtain msg where msg: "svc (t + attempt) prompt = Inl msg"
    by (metis le_refl sum.collapse(1))
  let ?ws = "if attempt < retries - 1 then ws @ [2 ^ attempt * 1000] else ws"
  have step: "retry_loop svc t prompt retries attempt lastError ws =
      retry_loop svc t prompt retries (attempt + 1) (Some msg) ?ws"
    using lt msg by (subst retry_loop.simps) simp
  have ih: "retry_loop svc t prompt retries (attempt + 1) (Some msg) ?ws =
      \<lparr>calls = retries,
       waits = ?ws @ map (\<lambda>j. 2 ^ j * 1000) [attempt + 1..<retries - 1],
       outcome =
         (case (if attempt + 1 < retries then Some (projl (svc (t + (retries - 1)) prompt)) else Some msg) of
            None \<Rightarrow> Inl (TypeError ''Cannot read properties of undefined (reading 'message')'')
          | Some m \<Rightarrow> Inl (Error (''Failed after '' @ nat_to_string retries @ '' attempts: '' @ m)))\<rparr>"
    using Suc.hyps(2) lt Suc.prems by (intro Suc.hyps(1)) auto
  show ?case
  proof (cases "attempt + 1 < retries")
    case True
    then show ?thesis using step ih lt by (simp add: upt_conv_Cons)
  next
    case False
    with lt have eq: "attempt = retries - 1" by simp
    then have "projl (svc (t + (retries - 1)) prompt) = msg" using msg by simp
    then show ?thesis using step ih lt False eq by simp
  qed
qed

lemma mock_report_parses:
  "parseJsonResponse (JSON_stringify mock_report) = Inr mock_report"
proof -
  have "well_formed mock_report"
    by (simp add: mock_report_def)
  then show ?thesis
    unfolding mock_report_def by (rule parseJsonResponse_stringify)
qed

text \<open>
  C2, as the code has it. In mock mode no request is sent and nothing is waited for:
  the call returns the fixed text, the serialization of the mock report, which
  \<open>parseJsonResponse\<close> reads back as that report. With mock mode off and \<open>retries \<ge> 1\<close>:
  when every attempt fails, exactly \<open>retries\<close> requests are sent and the call throws an
  error whose message carries the attempt count and the message of the last failure;
  when attempt \<open>k\<close> is the first to succeed, its text is returned after exactly \<open>k + 1\<close>
  requests. The delay after the failed attempt \<open>j\<close>, when another attempt follows, is
  \<open>1000 * 2 ^ j\<close> milliseconds: the base is the constant 1000.
\<close>

theorem invokeWithRetry_attempts:
  assumes "1 \<le> retries"
  shows "(let r = invokeWithRetry cfg svc t prompt retries in
           (mockMode cfg \<longrightarrow>
              calls r = 0 \<and> waits r = [] \<and> outcome r = Inr (JSON_stringify mock_report) \<and>
              parseJsonResponse (JSON_stringify mock_report) = Inr mock_report) \<and>
           (\<not> mockMode cfg \<longrightarrow>
              ((\<forall>j<retries. isl (svc (t + j) prompt)) \<longrightarrow>
                 calls r = retries \<and>
                 outcome r =
                   Inl (Error (''Failed after '' @ nat_to_string retries @ '' attempts: '' @
                               projl (svc (t + (retries - 1)) prompt))) \<and>
                 waits r = map (\<lambda>j. 1000 * 2 ^ j) [0..<retries - 1]) \<and>
              (\<forall>k<retries. \<forall>text.
                 (\<forall>j<k. isl (svc (t + j) prompt)) \<and> svc (t + k) prompt = Inr text \<longrightarrow>
                 calls r = k + 1 \<and> outcome r = Inr text \<and>
                 waits r = map (\<lambda>j. 1000 * 2 ^ j) [0..<k])))"
proof -
  have fail: "(\<forall>j<retries. isl (svc (t + j) prompt)) \<Longrightarrow>
      retry_loop svc t prompt retries 0 None [] =
        \<lparr>calls = retries, waits = map (\<lambda>j. 2 ^ j * 1000) [0..<retries - 1],
         outcome = Inl (Error (''Failed after '' @ nat_to_string retries @ '' attempts: '' @
                               projl (svc (t + (retries - 1)) prompt)))\<rparr>"
    using retry_loop_failure [of 0 retries svc t prompt None "[]"] assms by simp
  have succ: "\<And>k text. k < retries \<Longrightarrow> (\<forall>j<k. isl (svc (t + j) prompt)) \<Longrightarrow>
      svc (t + k) prompt = Inr text \<Longrightarrow>
      retry_loop svc t prompt retries 0 None [] =
        \<lparr>calls = k + 1, waits = map (\<lambda>j. 2 ^ j * 1000) [0..<k], outcome = Inr text\<rparr>"
    using retry_loop_success [of 0 _ retries svc t prompt _ None "[]"] by simp
  show ?thesis
  proof (cases "mockMode cfg")
    case True
    then show ?thesis
      unfolding Let_def invokeWithRetry_def using mock_report_parses by simp
  next
    case False
    then show ?thesis
      unfolding Let_def invokeWithRetry_def
      by (auto simp: fail succ mult.commute)
  qed
qed

theorem invokeWithRetry_attempts_witness:
  "(let r = invokeWithRetry (CONFIG False) (down_for 3 ''{}'') 0 ''prompt'' 3 in
      calls r = 3 \<and> waits r = [1000, 2000] \<and>
      outcome r = Inl (Error ''Failed after 3 attempts: 503 Service Unavailable'')) \<and>
   (let r = invokeWithRetry (CONFIG False) (down_for 2 ''{}'') 0 ''prompt'' 3 in
      calls r = 3 \<and> waits r = [1000, 2000] \<and> outcome r = Inr ''{}'') \<and>
   (let r = invokeWithRetry (CONFIG True) (down_for 3 ''{}'') 0 ''prompt'' 3 in
      calls r = 0 \<and> waits r = [] \<and> outcome r = Inr (JSON_stringify mock_report) \<and>
      parseJsonResponse (JSON_stringify mock_report) = Inr mock_report)"
proof -
  have cfg: "\<not> mockMode (CONFIG False)" and mock: "mockMode (CONFIG True)"
    and r: "(1::nat) \<le> 3"
    by (simp_all add: CONFIG_def)
  have three: "[0..<3] = [0, 1, 2]" and two: "[0..<2] = [0, Suc 0]"
    by (simp_all add: upt_rec)
  have n3: "nat_to_string 3 = ''3''"
    by code_simp
  have a: "\<forall>j<3. isl (down_for 3 ''{}'' (0 + j) ''prompt'')"
    by (simp add: down_for_def)
  have b: "(\<forall>j<2. isl (down_for 2 ''{}'' (0 + j) ''prompt'')) \<and>
           down_for 2 ''{}'' (0 + 2) ''prompt'' = Inr ''{}''"
    by (simp add: down_for_def)
  from invokeWithRetry_attempts [OF r, of "CONFIG False" "down_for 3 ''{}''" 0 "''prompt''"] a cfg
  have "let r = invokeWithRetry (CONFIG False) (down_for 3 ''{}'') 0 ''prompt'' 3 in
      calls r = 3 \<and> waits r = [1000, 2000] \<and>
      outcome r = Inl (Error ''Failed after 3 attempts: 503 Service Unavailable'')"
    by (simp add: Let_def n3 two down_for_def)
  moreover
  have "calls (invokeWithRetry (CONFIG False) (down_for 2 ''{}'') 0 ''prompt'' 3) = 2 + 1 \<and>
      outcome (invokeWithRetry (CONFIG False) (down_for 2 ''{}'') 0 ''prompt'' 3) = Inr ''{}'' \<and>
      waits (invokeWithRetry (CONFIG False) (down_for 2 ''{}'') 0 ''prompt'' 3) =
        map (\<lambda>j. 1000 * 2 ^ j) [0..<2]"
    using invokeWithRetry_attempts [OF r, of "CONFIG False" "down_for 2 ''{}''" 0 "''prompt''",
        unfolded Let_def, THEN conjunct2, rule_format, OF cfg, THEN conjunct2, rule_format,
        of 2 "''{}''"] b
    by simp
  then have "let r = invokeWithRetry (CONFIG False) (down_for 2 ''{}'') 0 ''prompt'' 3 in
      calls r = 3 \<and> waits r = [1000, 2000] \<and> outcome r = Inr ''{}''"
    by (simp add: Let_def two)
  moreover
  have "let r = invokeWithRetry (CONFIG True) (down_for 3 ''{}'') 0 ''prompt'' 3 in
      calls r = 0 \<and> waits r = [] \<and> outcome r = Inr (JSON_stringify mock_report) \<and>
      parseJsonResponse (JSON_stringify mock_report) = Inr mock_report"
    using invokeWithRetry_attempts [OF r, of "CONFIG True" "down_for 3 ''{}''" 0 "''prompt''",
        unfolded Let_def, THEN conjunct1, rule_format, OF mock]
    by (simp only: Let_def)
  ultimately show ?thesis by simp
qed

text \<open>
  C2 as stated fails twice. In mock mode a service that fails every request is never
  asked, and the call returns the mock report. With mock mode off, the delay after the
  first failure is 1000 ms whatever the configuration: a configured base of 500 ms
  would give 500.
\<close>

theorem invokeWithRetry_base_counterexample:
  "calls (invokeWithRetry (CONFIG True) (down_for 3 ''{}'') 0 ''prompt'' 3) = 0 \<and>
   isl (outcome (invokeWithRetry (CONFIG True) (down_for 3 ''{}'') 0 ''prompt'' 3)) = False \<and>
   waits (invokeWithRetry (CONFIG False) (down_for 3 ''{}'') 0 ''prompt'' 2) = [1000] \<and>
   waits (invokeWithRetry (CONFIG False) (down_for 3 ''{}'') 0 ''prompt'' 2) \<noteq> [500 * 2 ^ 0]"
  by (simp add: invokeWithRetry_def CONFIG_def retry_loop.simps down_for_def)

section \<open>Properties of extractKeyMetrics\<close>

text \<open>The rounding to binary64 is off by at most half the spacing of the doubles.\<close>


lemma ilog2_lower:
  assumes "0 < x"
  shows "2 powi (ilog2 x) \<le> x"
proof -
  obtain n d where q: "quotient_of x = (n, d)"
    by (cases "quotient_of x")
  have d: "0 < d"
    using quotient_of_denom_pos [OF q] .
  have x: "x = of_int n / of_int d"
    using quotient_of_div [OF q] .
  have n: "0 < n"
    using assms d x by (simp add: zero_less_divide_iff)
  define k where "k = bitlen n - bitlen d"
  show ?thesis
  proof (cases "2 powi k \<le> x")
    case True
    then show ?thesis by (simp add: ilog2_def q k_def)
  next
    case False
    have bn: "2 ^ nat (bitlen n - 1) \<le> n" and bd: "d < 2 ^ nat (bitlen d)"
      using bitlen_bounds [OF n] bitlen_bounds [OF d] by simp_all
    have pn: "1 \<le> bitlen n"
      using n by (simp add: bitlen_alt_def)
    have pd: "0 \<le> bitlen d"
      by (rule bitlen_nonneg)
    have eq: "k - 1 = (bitlen n - 1) - bitlen d"
      by (simp add: k_def)
    have "(2::rat) powi (k - 1) = 2 powi (bitlen n - 1) / 2 powi (bitlen d)"
      unfolding eq by (rule power_int_diff) simp
    also have "\<dots> = 2 ^ nat (bitlen n - 1) / 2 ^ nat (bitlen d)"
      using pn pd by (simp add: power_int_def)
    also have "\<dots> \<le> of_int n / of_int d"
    proof -
      have a: "(2::rat) ^ nat (bitlen n - 1) \<le> of_int n"
        using bn by (metis of_int_le_iff of_int_numeral of_int_power)
      have b: "rat_of_int d \<le> 2 ^ nat (bitlen d)"
        using bd by (metis less_imp_le of_int_le_iff of_int_numeral of_int_power)
      have c: "(0::rat) < of_int d" "(0::rat) \<le> of_int n"
        using d n by simp_all
      show ?thesis
        by (rule frac_le [OF c(2) a c(1) b])
    qed
    finally have "2 powi (k - 1) \<le> x"
      using x by simp
    then show ?thesis
      using False by (simp add: ilog2_def q k_def)
  qed
qed

lemma round_half_even_error: "\<bar>of_int (round_half_even y) - y\<bar> \<le> 1 / 2"
proof -
  have "of_int \<lfloor>y\<rfloor> \<le> y" "y < of_int \<lfloor>y\<rfloor> + 1"
    by linarith+
  then show ?thesis
    unfolding round_half_even_def Let_def by (auto simp: abs_le_iff)
qed

lemma round_half_even_nonneg: "0 \<le> y \<Longrightarrow> 0 \<le> round_half_even y"
  unfolding round_half_even_def Let_def by (auto simp: zero_le_floor)

lemma round_half_even_mono_bound:
  assumes "y < of_int b"
  shows "round_half_even y \<le> b"
proof -
  have "\<lfloor>y\<rfloor> < b" using assms by (simp add: floor_less_iff)
  then show ?thesis
    unfolding round_half_even_def Let_def by auto
qed

text \<open>The rounding error of a positive value below \<open>2 ^ (e + 1)\<close>.\<close>

lemma to_double_error:
  assumes x: "0 < x" "x < 2 powi (e + 1)" and e: "- 1022 \<le> e" "e \<le> 1022"
  shows "\<exists>y. to_double x = Fin y \<and> 0 \<le> y \<and> \<bar>y - x\<bar> \<le> 2 powi (e - 53)"
proof -
  define E where "E = max (ilog2 x) (- 1022)"
  define q where "q = (2::rat) powi (E - 52)"
  define m where "m = round_half_even (x / q)"
  have lt: "2 powi (ilog2 x) < (2::rat) powi (e + 1)"
    using ilog2_lower [OF x(1)] x(2) by simp
  have "ilog2 x < e + 1"
  proof (rule ccontr)
    assume "\<not> ilog2 x < e + 1"
    then have "e + 1 \<le> ilog2 x" by simp
    then have "(2::rat) powi (e + 1) \<le> 2 powi (ilog2 x)"
      by (intro power_int_increasing) simp_all
    with lt show False by simp
  qed
  then have E: "E \<le> e" "- 1022 \<le> E"
    using e by (simp_all add: E_def)
  have q: "0 < q" by (simp add: q_def)
  have qe: "q \<le> 2 powi (e - 52)"
    unfolding q_def using E by (intro power_int_increasing) simp_all
  have "\<bar>of_int m - x / q\<bar> \<le> 1 / 2"
    unfolding m_def by (rule round_half_even_error)
  then have "\<bar>of_int m - x / q\<bar> * q \<le> 1 / 2 * q"
    using q by (intro mult_right_mono) simp_all
  moreover have "\<bar>of_int m - x / q\<bar> * q = \<bar>of_int m * q - x\<bar>"
  proof -
    have "(of_int m - x / q) * q = of_int m * q - x"
      using q by (simp add: field_simps)
    moreover have "\<bar>of_int m - x / q\<bar> * q = \<bar>(of_int m - x / q) * q\<bar>"
      using q by (simp add: abs_mult)
    ultimately show ?thesis by simp
  qed
  ultimately have err: "\<bar>of_int m * q - x\<bar> \<le> q / 2"
    by simp
  have "q / 2 \<le> 2 powi (e - 52) / 2"
    using qe by simp
  also have "\<dots> = 2 powi (e - 53)"
    by (simp add: power_int_diff)
  finally have bound: "\<bar>of_int m * q - x\<bar> \<le> 2 powi (e - 53)"
    using err by simp
  have m0: "0 \<le> m"
    unfolding m_def using x(1) q by (intro round_half_even_nonneg) simp
  have no: "\<not> (1024 \<le> E \<or> (E = 1023 \<and> m = 9007199254740992))"
    using E e by simp
  have "to_double x = Fin (of_int m * q)"
    using x(1) no
    unfolding to_double_def Let_def E_def [symmetric] q_def [symmetric]
    by (simp add: m_def E_def [symmetric] q_def [symmetric])
  with bound m0 q show ?thesis
    by simp
qed


text \<open>
  The pass rate of \<open>p\<close> of \<open>t\<close>: the quotient and the product are each rounded to
  binary64, which leaves the result within \<open>2 ^ - 45\<close> of the exact rate.
\<close>

lemma pass_rate_value:
  assumes "0 < t" "p \<le> t"
  shows "\<exists>r. js_mul (js_div (Fin (of_nat p)) (Fin (of_nat t))) (Fin 100) = Fin r \<and> 0 \<le> r \<and>
             r < 128 \<and> \<bar>r - 100 * of_nat p / of_nat t\<bar> < 1 / 2 ^ 45"
proof (cases "p = 0")
  case True
  then show ?thesis using assms by (simp add: to_double_def)
next
  case False
  define x where "x = (of_nat p / of_nat t :: rat)"
  have x: "0 < x" "x \<le> 1"
    using assms False by (simp_all add: x_def)
  then have "x < 2 powi (0 + 1)" by simp
  from to_double_error [OF x(1) this]
  obtain y where y: "to_double x = Fin y" "0 \<le> y" "\<bar>y - x\<bar> \<le> 2 powi (- 53)"
    by auto
  have y53: "\<bar>y - x\<bar> \<le> 1 / 2 ^ 53"
    using y(3) by (simp add: power_int_minus_divide)
  have t0: "rat_of_nat t \<noteq> 0" using assms by simp
  have div: "js_div (Fin (of_nat p)) (Fin (of_nat t)) = Fin y"
    using t0 y(1) by (simp add: x_def)
  show ?thesis
  proof (cases "y = 0")
    case True
    have "\<bar>0 - 100 * x\<bar> \<le> 100 * (1 / 2 ^ 53)"
      using y53 True x by linarith
    also have "\<dots> < 1 / 2 ^ 45" by simp
    finally have "\<bar>0 - 100 * rat_of_nat p / rat_of_nat t\<bar> < 1 / 2 ^ 45"
      by (simp add: x_def)
    then show ?thesis
      using div True by (simp add: to_double_def)
  next
    case False
    have y1: "y \<le> 1 + 1 / 2 ^ 53"
      using y53 x by linarith
    have pos: "0 < y * 100" using y(2) False by simp
    have "y * 100 \<le> 100 + 100 * (1 / 2 ^ 53)"
      using y1 by linarith
    also have "\<dots> < 2 powi (6 + 1)" by simp
    finally have lt: "y * 100 < 2 powi (6 + 1)" .
    from to_double_error [OF pos lt]
    obtain r where r: "to_double (y * 100) = Fin r" "0 \<le> r" "\<bar>r - y * 100\<bar> \<le> 2 powi (6 - 53)"
      by auto
    have r47: "\<bar>r - y * 100\<bar> \<le> 1 / 2 ^ 47"
      using r(3) by (simp add: power_int_minus_divide)
    have "\<bar>r - 100 * x\<bar> \<le> \<bar>r - y * 100\<bar> + 100 * \<bar>y - x\<bar>"
    proof -
      have "r - 100 * x = (r - y * 100) + 100 * (y - x)"
        by simp
      then have "\<bar>r - 100 * x\<bar> \<le> \<bar>r - y * 100\<bar> + \<bar>100 * (y - x)\<bar>"
        by (simp only: abs_triangle_ineq)
      moreover have "\<bar>100 * (y - x)\<bar> = 100 * \<bar>y - x\<bar>"
        by (subst abs_mult) simp
      ultimately show ?thesis
        by (simp only:)
    qed
    also have "\<dots> \<le> 1 / 2 ^ 47 + 100 * (1 / 2 ^ 53)"
      by (intro add_mono mult_left_mono r47 y53) simp
    also have "\<dots> < 1 / 2 ^ 45" by simp
    finally have close: "\<bar>r - 100 * rat_of_nat p / rat_of_nat t\<bar> < 1 / 2 ^ 45"
      by (simp add: x_def)
    have "r \<le> y * 100 + 1 / 2 ^ 47"
      using r47 by linarith
    also have "\<dots> \<le> 100 + 100 * (1 / 2 ^ 53) + 1 / 2 ^ 47"
      using y1 by linarith
    also have "\<dots> < 128" by simp
    finally have "r < 128" .
    with r close show ?thesis
      using div by simp
  qed
qed

lemma nat_to_string_nonempty: "nat_to_string n \<noteq> []"
  by (subst nat_to_string.simps) simp

lemma nat_to_string_small: "n < 10 \<Longrightarrow> nat_to_string n = [digit_char n]"
  by (subst nat_to_string.simps) simp

text \<open>
  What \<open>toFixed(1)\<close> prints for a value that is not negative: the digits of the integer
  \<open>n\<close> nearest to ten times the value (the larger one of two), with the point before the
  last digit.
\<close>

lemma toFixed_one_decimal:
  assumes "0 \<le> x" "x < 10 ^ 21"
  shows "toFixed 1 (Fin x) =
           (let n = nat \<lfloor>10 * x + 1 / 2\<rfloor>
            in nat_to_string (n div 10) @ ''.'' @ [digit_char (n mod 10)])"
proof -
  define n where "n = nat \<lfloor>10 * x + 1 / 2\<rfloor>"
  define m' where
    "m' = (if length (nat_to_string n) \<le> 1
           then replicate (1 + 1 - length (nat_to_string n)) CHR ''0'' @ nat_to_string n
           else nat_to_string n)"
  have n: "nat \<lfloor>\<bar>x\<bar> * 10 ^ 1 + 1 / 2\<rfloor> = n"
    using assms(1) by (simp add: n_def mult.commute)
  have small: "\<not> 10 ^ 21 \<le> \<bar>x\<bar>" "\<not> x < 0"
    using assms by simp_all
  have "toFixed 1 (Fin x) =
          (let n = nat \<lfloor>\<bar>x\<bar> * 10 ^ 1 + 1 / 2\<rfloor>;
               m = nat_to_string n;
               m' = (if length m \<le> 1 then replicate (1 + 1 - length m) CHR ''0'' @ m else m);
               k = length m'
           in (if x < 0 then ''-'' else []) @
              (if (1::nat) = 0 then m' else take (k - 1) m' @ ''.'' @ drop (k - 1) m'))"
    using small(1) unfolding toFixed_def by (simp only: jsnum.case if_False)
  also have "\<dots> = take (length m' - 1) m' @ ''.'' @ drop (length m' - 1) m'"
    unfolding n Let_def m'_def [symmetric] using small(2) by simp
  also have "\<dots> = nat_to_string (n div 10) @ ''.'' @ [digit_char (n mod 10)]"
  proof (cases "n < 10")
    case True
    have z: "digit_char 0 = CHR ''0''"
      by code_simp
    from True show ?thesis
      by (simp add: m'_def nat_to_string_small z)
  next
    case False
    then have s: "nat_to_string n = nat_to_string (n div 10) @ [digit_char (n mod 10)]"
      by (subst nat_to_string.simps) simp
    have "length (nat_to_string (n div 10)) \<noteq> 0"
      using nat_to_string_nonempty by simp
    then show ?thesis
      unfolding m'_def s by simp
  qed
  finally show ?thesis
    by (simp add: Let_def n_def)
qed

lemma foldl_classify:
  "foldl classify (ps, fs) ms =
     (ps @ map metric.name (filter (\<lambda>m. pass m = Some True) ms),
      fs @ map metric.name (filter (\<lambda>m. pass m = Some False) ms))"
  by (induction ms arbitrary: ps fs) auto

lemma pass_partition:
  "length (filter (\<lambda>m. pass m = Some True) ms) + length (filter (\<lambda>m. pass m = Some False) ms) +
   length (filter (\<lambda>m. pass m = None) ms) = length ms"
proof (induction ms)
  case Nil
  show ?case by simp
next
  case (Cons m ms)
  then show ?case by (cases "pass m") auto
qed

lemma pass_rate_6_of_10: "toFixed 1 (js_mul (js_div (Fin 6) (Fin 10)) (Fin 100)) = ''60.0''"
  by code_simp

lemma pass_rate_6_of_10':
  "p = 6 \<Longrightarrow> n = 10 \<Longrightarrow>
   toFixed 1 (js_mul (js_div (Fin (of_nat p)) (Fin (of_nat n))) (Fin 100)) = ''60.0''"
  using pass_rate_6_of_10 by (simp only: of_nat_numeral)

lemma extractKeyMetrics_fields:
  "extractKeyMetrics data =
     (let all = metrics (fundamentalResilience (quantitative data)) @
                metrics (asymmetricRiskReward (quantitative data)) @
                metrics (technicalConfirmation (quantitative data))
      in \<lparr>totalMetrics = length all,
          passedCount = length (filter (\<lambda>m. pass m = Some True) all),
          failedCount = length (filter (\<lambda>m. pass m = Some False) all),
          passRate =
            toFixed 1
              (js_mul (js_div (Fin (of_nat (length (filter (\<lambda>m. pass m = Some True) all))))
                 (Fin (of_nat (length all))))
                 (Fin 100)),
          sisScore = overall (sis data),
          ssisScore = overall (ssis data),
          qualitativeRating = overallRating (qualitative data),
          passedMetrics = map metric.name (filter (\<lambda>m. pass m = Some True) all),
          failedMetrics = map metric.name (filter (\<lambda>m. pass m = Some False) all)\<rparr>)"
  unfolding extractKeyMetrics_def by (simp add: foldl_classify Let_def)

lemma pass_rate_rounded:
  assumes "0 < t" "p \<le> t"
  shows "\<exists>r n. js_mul (js_div (Fin (of_nat p)) (Fin (of_nat t))) (Fin 100) = Fin r \<and>
               \<bar>r - 100 * of_nat p / of_nat t\<bar> < 1 / 2 ^ 45 \<and>
               n = nat \<lfloor>10 * r + 1 / 2\<rfloor> \<and>
               toFixed 1 (js_mul (js_div (Fin (of_nat p)) (Fin (of_nat t))) (Fin 100)) =
                 nat_to_string (n div 10) @ ''.'' @ [digit_char (n mod 10)] \<and>
               \<bar>rat_of_nat n / 10 - 100 * of_nat p / of_nat t\<bar> < 1 / 20 + 1 / 2 ^ 45"
proof -
  define rate where "rate = 100 * rat_of_nat p / rat_of_nat t"
  from pass_rate_value [OF assms]
  obtain r where r: "js_mul (js_div (Fin (of_nat p)) (Fin (of_nat t))) (Fin 100) = Fin r"
    "0 \<le> r" "r < 128" "\<bar>r - rate\<bar> < 1 / 2 ^ 45"
    unfolding rate_def by blast
  define n where "n = nat \<lfloor>10 * r + 1 / 2\<rfloor>"
  have "r < 10 ^ 21" using r(3) by simp
  from toFixed_one_decimal [OF r(2) this]
  have shown: "toFixed 1 (Fin r) = nat_to_string (n div 10) @ ''.'' @ [digit_char (n mod 10)]"
    by (simp add: Let_def n_def)
  define f where "f = rat_of_int \<lfloor>10 * r + 1 / 2\<rfloor>"
  have n: "rat_of_nat n = f"
    using r(2) by (simp add: n_def f_def)
  have "f \<le> 10 * r + 1 / 2" "10 * r + 1 / 2 < f + 1"
    unfolding f_def by linarith+
  then have "\<bar>f / 10 - r\<bar> \<le> 1 / 20"
    by linarith
  then have "\<bar>f / 10 - rate\<bar> < 1 / 20 + 1 / 2 ^ 45"
    using r(4) by linarith
  then have close: "\<bar>rat_of_nat n / 10 - rate\<bar> < 1 / 20 + 1 / 2 ^ 45"
    by (simp only: n)
  show ?thesis
    unfolding rate_def [symmetric]
    by (intro exI [of _ r] exI [of _ n] conjI r(1) r(4) n_def close) (simp only: r(1) shown)
qed

text \<open>
  C4, as the code has it. The summary is computed over the metrics of the three groups
  in the order fundamentalResilience, asymmetricRiskReward, technicalConfirmation;
  \<open>passedMetrics\<close> and \<open>failedMetrics\<close> are the names of the entries whose flag is true,
  respectively false, in that order, and the counts are their lengths, an unset flag
  counting for neither. When there is a metric, \<open>passRate\<close> is the numeral with one
  decimal that is nearest to \<open>r\<close>, the larger one of two, where \<open>r\<close> is the binary64
  value of \<open>passedCount / totalMetrics * 100\<close>; \<open>r\<close> is within \<open>2 ^ - 45\<close> of the exact
  rate, so the numeral is within \<open>0.05 + 2 ^ - 45\<close> of it. For 6 of 10 it is 60.0. The
  three composite scores are copied.
\<close>

theorem extractKeyMetrics_summary:
  "(let all = metrics (fundamentalResilience (quantitative data)) @
              metrics (asymmetricRiskReward (quantitative data)) @
              metrics (technicalConfirmation (quantitative data));
        km = extractKeyMetrics data;
        rate = 100 * rat_of_nat (passedCount km) / rat_of_nat (totalMetrics km)
    in totalMetrics km = length all \<and>
       passedMetrics km = map metric.name (filter (\<lambda>m. pass m = Some True) all) \<and>
       failedMetrics km = map metric.name (filter (\<lambda>m. pass m = Some False) all) \<and>
       passedCount km = length (filter (\<lambda>m. pass m = Some True) all) \<and>
       failedCount km = length (filter (\<lambda>m. pass m = Some False) all) \<and>
       passedCount km + failedCount km + length (filter (\<lambda>m. pass m = None) all) = length all \<and>
       (0 < totalMetrics km \<longrightarrow>
          (\<exists>r n. js_mul (js_div (Fin (of_nat (passedCount km))) (Fin (of_nat (totalMetrics km))))
                    (Fin 100) = Fin r \<and>
                 \<bar>r - rate\<bar> < 1 / 2 ^ 45 \<and>
                 n = nat \<lfloor>10 * r + 1 / 2\<rfloor> \<and>
                 passRate km = nat_to_string (n div 10) @ ''.'' @ [digit_char (n mod 10)] \<and>
                 \<bar>rat_of_nat n / 10 - rate\<bar> < 1 / 20 + 1 / 2 ^ 45)) \<and>
       (passedCount km = 6 \<and> totalMetrics km = 10 \<longrightarrow> passRate km = ''60.0'') \<and>
       sisScore km = overall (sis data) \<and>
       ssisScore km = overall (ssis data) \<and>
       qualitativeRating km = overallRating (qualitative data))"
proof -
  define all where "all = metrics (fundamentalResilience (quantitative data)) @
              metrics (asymmetricRiskReward (quantitative data)) @
              metrics (technicalConfirmation (quantitative data))"
  define km where "km = extractKeyMetrics data"
  define rate where "rate = 100 * rat_of_nat (passedCount km) / rat_of_nat (totalMetrics km)"
  have km: "km = \<lparr>totalMetrics = length all,
          passedCount = length (filter (\<lambda>m. pass m = Some True) all),
          failedCount = length (filter (\<lambda>m. pass m = Some False) all),
          passRate =
            toFixed 1
              (js_mul (js_div (Fin (of_nat (length (filter (\<lambda>m. pass m = Some True) all))))
                 (Fin (of_nat (length all))))
                 (Fin 100)),
          sisScore = overall (sis data),
          ssisScore = overall (ssis data),
          qualitativeRating = overallRating (qualitative data),
          passedMetrics = map metric.name (filter (\<lambda>m. pass m = Some True) all),
          failedMetrics = map metric.name (filter (\<lambda>m. pass m = Some False) all)\<rparr>"
    unfolding km_def all_def by (simp only: extractKeyMetrics_fields Let_def)
  have rate: "passRate km =
         toFixed 1 (js_mul (js_div (Fin (of_nat (passedCount km))) (Fin (of_nat (totalMetrics km))))
                      (Fin 100))"
    by (simp add: km)
  have le: "passedCount km \<le> totalMetrics km"
    by (simp add: km)
  have rounded: "\<exists>r n. js_mul (js_div (Fin (of_nat (passedCount km))) (Fin (of_nat (totalMetrics km))))
                    (Fin 100) = Fin r \<and>
                 \<bar>r - rate\<bar> < 1 / 2 ^ 45 \<and>
                 n = nat \<lfloor>10 * r + 1 / 2\<rfloor> \<and>
                 passRate km = nat_to_string (n div 10) @ ''.'' @ [digit_char (n mod 10)] \<and>
                 \<bar>rat_of_nat n / 10 - rate\<bar> < 1 / 20 + 1 / 2 ^ 45"
    if "0 < totalMetrics km"
    unfolding rate rate_def by (rule pass_rate_rounded [OF that le])
  have ex: "passedCount km = 6 \<and> totalMetrics km = 10 \<longrightarrow> passRate km = ''60.0''"
    using rate pass_rate_6_of_10' by metis
  have part: "passedCount km + failedCount km + length (filter (\<lambda>m. pass m = None) all) = length all"
    using pass_partition [of all] by (simp add: km)
  have "totalMetrics km = length all \<and>
       passedMetrics km = map metric.name (filter (\<lambda>m. pass m = Some True) all) \<and>
       failedMetrics km = map metric.name (filter (\<lambda>m. pass m = Some False) all) \<and>
       passedCount km = length (filter (\<lambda>m. pass m = Some True) all) \<and>
       failedCount km = length (filter (\<lambda>m. pass m = Some False) all) \<and>
       sisScore km = overall (sis data) \<and>
       ssisScore km = overall (ssis data) \<and>
       qualitativeRating km = overallRating (qualitative data)"
    by (simp add: km)
  with rounded ex part show ?thesis
    unfolding Let_def all_def [symmetric] km_def [symmetric] rate_def [symmetric] by blast
qed

theorem extractKeyMetrics_summary_witness:
  "passRate (extractKeyMetrics
     (input_of [Some True, Some True, Some False, Some True]
               [Some False, Some True, Some True]
               [Some False, Some True, Some False])) = ''60.0''"
proof -
  let ?d = "input_of [Some True, Some True, Some False, Some True]
               [Some False, Some True, Some True]
               [Some False, Some True, Some False]"
  have "passedCount (extractKeyMetrics ?d) = 6 \<and> totalMetrics (extractKeyMetrics ?d) = 10"
    by (simp add: extractKeyMetrics_def input_of_def group_of_def)
  with extractKeyMetrics_summary [of ?d] show ?thesis
    unfolding Let_def by blast
qed

text \<open>
  C4 as stated fails where the exact rate lies halfway between two numerals with one
  decimal. 23 of 80 is 28.75 exactly; rounded to one decimal place that is 28.8, whether a
  tie goes up or to the even digit, but the code returns 28.7, the binary64 value of
  \<^verbatim>\<open>23 / 80 * 100\<close> being just below 28.75. The tie of 1 of 16, which is 6.25, goes up,
  to 6.3.
\<close>

theorem extractKeyMetrics_rate_counterexample:
  "passRate (extractKeyMetrics
     (input_of (replicate 23 (Some True) @ replicate 57 (Some False)) [] [])) = ''28.7'' \<and>
   (100 * 23 / 80 :: rat) = 2875 / 100 \<and>
   \<lfloor>10 * (100 * 23 / 80 :: rat) + 1 / 2\<rfloor> = 288 \<and>
   round_half_even (10 * (100 * 23 / 80)) = 288 \<and>
   passRate (extractKeyMetrics
     (input_of [Some True] (replicate 15 (Some False)) [])) = ''6.3'' \<and>
   (100 * 1 / 16 :: rat) = 625 / 100"
proof -
  have a: "toFixed 1 (js_mul (js_div (Fin 23) (Fin 80)) (Fin 100)) = ''28.7''"
    by code_simp
  have b: "toFixed 1 (js_mul (js_div (Fin 1) (Fin 16)) (Fin 100)) = ''6.3''"
    by code_simp
  have c: "\<lfloor>10 * (100 * 23 / 80 :: rat) + 1 / 2\<rfloor> = 288"
    by code_simp
  have d: "round_half_even (10 * (100 * 23 / 80)) = 288"
    by code_simp
  have p1: "passRate (extractKeyMetrics
     (input_of (replicate 23 (Some True) @ replicate 57 (Some False)) [] [])) =
       toFixed 1 (js_mul (js_div (Fin 23) (Fin 80)) (Fin 100))"
    by (simp add: extractKeyMetrics_fields input_of_def group_of_def Let_def)
  have p2: "passRate (extractKeyMetrics
     (input_of [Some True] (replicate 15 (Some False)) [])) =
       toFixed 1 (js_mul (js_div (Fin 1) (Fin 16)) (Fin 100))"
    by (simp add: extractKeyMetrics_fields input_of_def group_of_def Let_def)
  show ?thesis
    unfolding p1 p2 a b using c d by simp
qed

text \<open>
  C10. When the three groups have no metrics, the extraction still returns: all three
  counts are 0 and \<open>passRate\<close> is the string NaN, the quotient \<open>0 / 0\<close> being taken
  unguarded.
\<close>

theorem extractKeyMetrics_no_metrics:
  assumes "metrics (fundamentalResilience (quantitative data)) = []"
    and "metrics (asymmetricRiskReward (quantitative data)) = []"
    and "metrics (technicalConfirmation (quantitative data)) = []"
  shows "totalMetrics (extractKeyMetrics data) = 0 \<and>
         passedCount (extractKeyMetrics data) = 0 \<and>
         failedCount (extractKeyMetrics data) = 0 \<and>
         passRate (extractKeyMetrics data) = ''NaN''"
  using assms by (simp add: extractKeyMetrics_def toFixed_def)

theorem extractKeyMetrics_no_metrics_witness:
  "totalMetrics (extractKeyMetrics (input_of [] [] [])) = 0 \<and>
   passedCount (extractKeyMetrics (input_of [] [] [])) = 0 \<and>
   failedCount (extractKeyMetrics (input_of [] [] [])) = 0 \<and>
   passRate (extractKeyMetrics (input_of [] [] [])) = ''NaN''"
  using extractKeyMetrics_no_metrics [of "input_of [] [] []"]
  by (simp add: input_of_def group_of_def)

section \<open>Properties of parseJsonResponse\<close>

text \<open>
  C5. The text with an unterminated string and no closing brace is rejected: it is not
  valid JSON, and without a closing brace the repair step is not entered. The text with
  EXTRA after the object is cut down to the span from the first opening brace to the last
  closing brace, which parses to the object.
\<close>

theorem parseJsonResponse_examples:
  \<open>parseJsonResponse ''{"a":"x","b":"unterminated'' =
     Inl (Error ''Invalid JSON response from model: Unexpected end of JSON input'') \<and>
   lastIndexOf (clean_response ''{"a":"x","b":"unterminated'') (CHR ''}'') = - 1 \<and>
   clean_response ''{"a":"x","b":"y"}EXTRA'' = ''{"a":"x","b":"y"}'' \<and>
   parseJsonResponse ''{"a":"x","b":"y"}EXTRA'' = Inr (JObj [(''a'', JStr ''x''), (''b'', JStr ''y'')])\<close>
proof -
  have c1: \<open>clean_response ''{"a":"x","b":"unterminated'' = ''{"a":"x","b":"unterminated''\<close>
    by code_simp
  have p1: \<open>JSON_parse ''{"a":"x","b":"unterminated'' =
            Inl (SyntaxError ''Unexpected end of JSON input'')\<close>
    by code_simp
  have b1: \<open>lastIndexOf ''{"a":"x","b":"unterminated'' (CHR ''}'') = - 1\<close>
    by (simp add: lastIndexOf_def)
  have c2: \<open>clean_response ''{"a":"x","b":"y"}EXTRA'' = ''{"a":"x","b":"y"}''\<close>
    by code_simp
  have p2: \<open>JSON_parse ''{"a":"x","b":"y"}'' = Inr (JObj [(''a'', JStr ''x''), (''b'', JStr ''y'')])\<close>
    by code_simp
  show ?thesis
    by (simp add: parseJsonResponse_def parseJsonResponse_with_def c1 p1 b1 c2 p2)
qed

text \<open>
  C7, as the code has it. When the cleaned text does not parse, and the repaired text
  does not either when there is a closing brace to cut at, the error thrown has the
  message of the first parse error behind a fixed prefix. The first 500 characters of
  the cleaned text are written to the console, as the last line; they are not part of
  the error.
\<close>

theorem parseJsonResponse_failure:
  assumes "parse (clean_response response) = Inl err"
    and "0 < lastIndexOf (clean_response response) (CHR ''}'') \<longrightarrow>
         isl (parse (close_last_string
                (substring (clean_response response) 0
                   (lastIndexOf (clean_response response) (CHR ''}'') + 1))))"
  shows "snd (parseJsonResponse_with parse response) =
           Inl (Error (''Invalid JSON response from model: '' @ message err)) \<and>
         last (fst (parseJsonResponse_with parse response)) =
           ''Failed to parse JSON response. First 500 chars: '' @
           take 500 (clean_response response)"
  using assms
  by (auto simp: parseJsonResponse_with_def Let_def substring_def isl_def
           split: sum.splits option.splits)

theorem parseJsonResponse_failure_witness:
  \<open>snd (parseJsonResponse_with JSON_parse ''{"a":"x","b":"unterminated'') =
     Inl (Error ''Invalid JSON response from model: Unexpected end of JSON input'') \<and>
   last (fst (parseJsonResponse_with JSON_parse ''{"a":"x","b":"unterminated'')) =
     ''Failed to parse JSON response. First 500 chars: {"a":"x","b":"unterminated''\<close>
proof -
  have c: \<open>clean_response ''{"a":"x","b":"unterminated'' = ''{"a":"x","b":"unterminated''\<close>
    by code_simp
  have p: \<open>JSON_parse ''{"a":"x","b":"unterminated'' =
            Inl (SyntaxError ''Unexpected end of JSON input'')\<close>
    by code_simp
  have b: \<open>lastIndexOf ''{"a":"x","b":"unterminated'' (CHR ''}'') = - 1\<close>
    by (simp add: lastIndexOf_def)
  show ?thesis
    using parseJsonResponse_failure [of JSON_parse \<open>''{"a":"x","b":"unterminated''\<close>
        "SyntaxError ''Unexpected end of JSON input''"]
    by (simp add: c p b)
qed

text \<open>
  C7 as stated fails: the message of the error thrown for the unterminated text does not
  contain the cleaned text.
\<close>

theorem parseJsonResponse_error_counterexample:
  \<open>\<not> contains
       (message (projl (parseJsonResponse ''{"a":"x","b":"unterminated'')))
       (substring (clean_response ''{"a":"x","b":"unterminated'') 0 500)\<close>
  by code_simp

section \<open>Properties of the workflow\<close>

text \<open>The inputs of the examples, as the schema judges them and as the agent reads them.\<close>

lemma named_accepted: "zod_parse StockInputSchema_zod named_input = Accepted ()"
  by code_simp

lemma nameless_rejected:
  "zod_parse StockInputSchema_zod nameless_input = ZodError [Issue [''stock'', ''name''] ''Required'']"
  by code_simp

lemma named_typed:
  "typed_input named_input =
     Inr \<lparr>stock = \<lparr>symbol = ''TBD'', name = ''To Be Determined'', asOf = ''2024-01-15''\<rparr>,
          quantitative =
            \<lparr>fundamentalResilience =
               \<lparr>metrics = [\<lparr>metric.name = ''FCF Yield'', pass = Some True\<rparr>,
                           \<lparr>metric.name = ''Net Debt/EBITDA'', pass = Some False\<rparr>]\<rparr>,
             asymmetricRiskReward = \<lparr>metrics = [\<lparr>metric.name = ''Forward P/E'', pass = Some True\<rparr>]\<rparr>,
             technicalConfirmation = \<lparr>metrics = []\<rparr>\<rparr>,
          sis = \<lparr>overall = Fin 65\<rparr>, ssis = \<lparr>overall = Fin 72\<rparr>,
          qualitative = \<lparr>overallRating = Fin (9 / 2)\<rparr>\<rparr>"
  by code_simp

lemma invoke_rejected:
  assumes "\<not> success (validateInput e data)"
  shows "invoke e w data =
          (w, (initialState data)
               \<lparr>validatedInput := False,
                finalReport := error_report (validation.errors (validateInput e data)),
                errors := validation.errors (validateInput e data),
                step := ''complete''\<rparr>)"
  using assms
  by (simp add: invoke_def invoke_from.simps [of _ validate_input]
        invoke_from.simps [of _ error_handler] graph_step_def validate_input_node_def
        error_node_def channels_def initialState_def Let_def error_report_def)

lemma validate_with_errors:
  "\<not> success (validate_with schema data) \<Longrightarrow> schema data \<noteq> ZodError [] \<Longrightarrow>
   validation.errors (validate_with schema data) \<noteq> []"
  by (auto simp: validate_with_def split: zod_result.splits)

text \<open>
  C3. When the input fails validation, the workflow ends at the step complete and
  returns, without throwing, the report with \<open>error\<close> true, the error list of the
  validator under \<open>errors\<close> and the message Analysis failed. That list is not empty
  unless the schema threw a \<open>ZodError\<close> without issues.
\<close>

theorem validation_failure_report:
  assumes "\<not> success (validateInput e data)"
  shows "execute e w data = (w, error_report (validation.errors (validateInput e data))) \<and>
         error_report (validation.errors (validateInput e data)) =
           JObj [(''error'', JBool True),
                 (''errors'', JArr (map JStr (validation.errors (validateInput e data)))),
                 (''message'', JStr ''Analysis failed'')] \<and>
         step (snd (invoke e w data)) = ''complete'' \<and>
         (StockInputSchema e data \<noteq> ZodError [] \<longrightarrow>
            validation.errors (validateInput e data) \<noteq> [])"
  using assms validate_with_errors [of "StockInputSchema e" data]
  by (simp add: execute_def invoke_rejected error_report_def validateInput_def)

theorem validation_failure_report_witness:
  "execute (env_of (down_for 0 short_report)) world0 nameless_input =
     (world0,
      JObj [(''error'', JBool True),
            (''errors'', JArr [JStr ''stock.name: Required'']),
            (''message'', JStr ''Analysis failed'')])"
proof -
  have v: "validateInput (env_of (down_for 0 short_report)) nameless_input =
           \<lparr>success = False, errors = [''stock.name: Required'']\<rparr>"
    by (simp add: validateInput_def validate_with_def env_of_def nameless_rejected)
  then have "\<not> success (validateInput (env_of (down_for 0 short_report)) nameless_input)"
    by simp
  from validation_failure_report [OF this, of world0] show ?thesis
    by (simp add: v)
qed

text \<open>
  Each step of the graph extends the error list, and the run ends exactly when the step
  is complete; until then there is no final report.
\<close>

lemma errors_only_grow:
  "\<exists>more. analysis_state.errors (snd (snd (graph_step e (n, w, state)))) =
           analysis_state.errors state @ more"
  by (cases n)
     (auto simp: graph_step_def channels_def Let_def validate_input_node_def
        parallel_processing_node_def parse_response_node_def enrich_report_node_def
        error_node_def split: prod.splits sum.splits)

lemma end_iff_complete:
  "(fst (graph_step e (n, w, state)) = None) =
   (step (snd (snd (graph_step e (n, w, state)))) = ''complete'')"
  by (cases n)
     (auto simp: graph_step_def channels_def Let_def validate_input_node_def
        parallel_processing_node_def parse_response_node_def enrich_report_node_def
        error_node_def split: prod.splits sum.splits)

lemma no_report_before_complete:
  assumes "finalReport state = JNull"
    and "step (snd (snd (graph_step e (n, w, state)))) \<noteq> ''complete''"
  shows "finalReport (snd (snd (graph_step e (n, w, state)))) = JNull"
  using assms
  by (cases n)
     (auto simp: graph_step_def channels_def Let_def validate_input_node_def
        parallel_processing_node_def parse_response_node_def enrich_report_node_def
        error_node_def split: prod.splits sum.splits)

text \<open>
  C6 fails on the code. The edges out of \<open>parallel_processing\<close> and \<open>parse_response\<close>
  are unconditional, so a failure there does not lead to the error node: the run goes on
  to \<open>enrich_report\<close>, which ends it at the step complete with the null parsed report
  as the final report. Here the input is valid and the service fails every request.
\<close>

theorem failed_generation_null_report:
  "step (snd (invoke (env_of (down_for 3 short_report)) world0 named_input)) = ''complete'' \<and>
   finalReport (snd (invoke (env_of (down_for 3 short_report)) world0 named_input)) = JNull \<and>
   execute (env_of (down_for 3 short_report)) world0 named_input = (\<lparr>requests = 3, clock = 0\<rparr>, JNull)"
  by code_simp

lemma map_of_update_other:
  "k \<noteq> k' \<Longrightarrow> map_of (AList.update k' v al) k = map_of al k"
  by (simp add: update_conv')

lemma keys_update: "fst ` set al \<subseteq> fst ` set (AList.update k v al)"
  by (auto simp: dom_update)

text \<open>The three fields of \<^verbatim>\<open>stock\<close> in the typed reading are those of the input.\<close>

lemma typed_stock:
  assumes "typed_input data = Inr d"
  shows "Option.bind (member data ''stock'') (\<lambda>s. member s ''symbol'') = Some (JStr (symbol (stock d))) \<and>
         Option.bind (member data ''stock'') (\<lambda>s. member s ''name'') = Some (JStr (stock.name (stock d))) \<and>
         Option.bind (member data ''stock'') (\<lambda>s. member s ''asOf'') = Some (JStr (asOf (stock d)))"
proof -
  from assms have r: "read_input data = Some d"
    by (simp add: typed_input_def split: option.splits)
  then obtain st where st: "read_stock data = Some st" and d: "stock d = st"
    by (auto simp: read_input_def split: Option.bind_splits)
  from st show ?thesis
    unfolding d
    by (auto simp: read_stock_def string_member_def split: Option.bind_splits option.splits json.splits)
qed

text \<open>
  C1, as the code has it. In the workflow with the parallel step the node
  \<open>enrich_report\<close> ends the run with the parsed report as the final report, unchanged
  and without a metadata block. In the workflow with seven nodes the node ends the run
  with a final report that has the properties of the parsed report and, under
  \<open>metadata\<close>, the symbol, the name and the as-of date that the input holds under
  \<^verbatim>\<open>stock\<close>, the reading of the clock, the key metrics, the name of the model
  (gemini-1.5-pro when it has none) and the version 1.0.0; every other property keeps its
  key and its value.
\<close>

theorem enrich_report_final:
  "fst (graph_step e (enrich_report, w, state)) = None \<and>
   finalReport (snd (snd (graph_step e (enrich_report, w, state)))) = parsedReport state \<and>
   step (snd (snd (graph_step e (enrich_report, w, state)))) = ''complete'' \<and>
   (typed_input (inputData state) = Inr d \<longrightarrow>
      (let km = (case keyMetrics state of None \<Rightarrow> JNull | Some k \<Rightarrow> json_of_key_metrics k);
           block = JObj [(''stockSymbol'', JStr (symbol (stock d))),
                         (''stockName'', JStr (stock.name (stock d))),
                         (''analysisDate'', JStr (Date_now e (clock w))),
                         (''asOfDate'', JStr (asOf (stock d))),
                         (''keyMetrics'', km),
                         (''modelUsed'',
                          JStr (case modelName e of
                                  None \<Rightarrow> ''gemini-1.5-pro''
                                | Some n \<Rightarrow> if n = [] then ''gemini-1.5-pro'' else n)),
                         (''version'', JStr ''1.0.0'')];
           final = AList.update ''metadata'' block (spread (parsedReport state))
       in invoke_from7 e enrich_report7 w state =
            Inr (w\<lparr>clock := clock w + 1\<rparr>, state\<lparr>finalReport := JObj final, step := ''complete''\<rparr>) \<and>
          Option.bind (member (inputData state) ''stock'') (\<lambda>s. member s ''symbol'') =
            Some (JStr (symbol (stock d))) \<and>
          Option.bind (member (inputData state) ''stock'') (\<lambda>s. member s ''name'') =
            Some (JStr (stock.name (stock d))) \<and>
          Option.bind (member (inputData state) ''stock'') (\<lambda>s. member s ''asOf'') =
            Some (JStr (asOf (stock d))) \<and>
          map_of final ''metadata'' = Some block \<and>
          (\<forall>k. k \<noteq> ''metadata'' \<longrightarrow> map_of final k = map_of (spread (parsedReport state)) k) \<and>
          set (map fst (spread (parsedReport state))) \<subseteq> set (map fst final)))"
proof -
  have a: "fst (graph_step e (enrich_report, w, state)) = None \<and>
      finalReport (snd (snd (graph_step e (enrich_report, w, state)))) = parsedReport state \<and>
      step (snd (snd (graph_step e (enrich_report, w, state)))) = ''complete''"
    by (simp add: graph_step_def enrich_report_node_def channels_def)
  have b: "typed_input (inputData state) = Inr d \<Longrightarrow>
      invoke_from7 e enrich_report7 w state =
        Inr (w\<lparr>clock := clock w + 1\<rparr>,
             state\<lparr>finalReport :=
                      enrich e (Date_now e (clock w)) d
                        (case keyMetrics state of None \<Rightarrow> JNull | Some k \<Rightarrow> json_of_key_metrics k)
                        (parsedReport state),
                    step := ''complete''\<rparr>)"
    by (simp add: invoke_from7.simps [of _ enrich_report7] enrich_report_node7_def channels_def)
  show ?thesis
    using a b typed_stock [of "inputData state" d]
    by (simp add: Let_def enrich_def metadata_def update_conv' keys_update)
qed

theorem enrich_report_final_witness:
  "(let state = (initialState named_input)\<lparr>parsedReport := JObj [(''overallScore'', JNum (Fin 70))]\<rparr>;
        e = env_of (down_for 0 short_report)
    in finalReport (snd (snd (graph_step e (enrich_report, world0, state)))) =
         JObj [(''overallScore'', JNum (Fin 70))] \<and>
       map_sum id (\<lambda>r. finalReport (snd r)) (invoke_from7 e enrich_report7 world0 state) =
         Inr (JObj [(''overallScore'', JNum (Fin 70)),
                    (''metadata'',
                     JObj [(''stockSymbol'', JStr ''TBD''),
                           (''stockName'', JStr ''To Be Determined''),
                           (''analysisDate'', JStr ''2024-01-15T09:30:00.000Z''),
                           (''asOfDate'', JStr ''2024-01-15''),
                           (''keyMetrics'', JNull),
                           (''modelUsed'', JStr ''gemini-2.5-flash''),
                           (''version'', JStr ''1.0.0'')])]))"
proof -
  let ?state = "(initialState named_input)\<lparr>parsedReport := JObj [(''overallScore'', JNum (Fin 70))]\<rparr>"
  let ?e = "env_of (down_for 0 short_report)"
  let ?d = "\<lparr>stock = \<lparr>symbol = ''TBD'', name = ''To Be Determined'', asOf = ''2024-01-15''\<rparr>,
          quantitative =
            \<lparr>fundamentalResilience =
               \<lparr>metrics = [\<lparr>metric.name = ''FCF Yield'', pass = Some True\<rparr>,
                           \<lparr>metric.name = ''Net Debt/EBITDA'', pass = Some False\<rparr>]\<rparr>,
             asymmetricRiskReward = \<lparr>metrics = [\<lparr>metric.name = ''Forward P/E'', pass = Some True\<rparr>]\<rparr>,
             technicalConfirmation = \<lparr>metrics = []\<rparr>\<rparr>,
          sis = \<lparr>overall = Fin 65\<rparr>, ssis = \<lparr>overall = Fin 72\<rparr>,
          qualitative = \<lparr>overallRating = Fin (9 / 2)\<rparr>\<rparr>"
  have t: "typed_input (inputData ?state) = Inr ?d"
    using named_typed by (simp add: initialState_def)
  have z: "nat_to_string 0 = ''0''"
    by code_simp
  from enrich_report_final [of ?e world0 ?state, THEN conjunct2, THEN conjunct1]
    enrich_report_final [of ?e world0 ?state, THEN conjunct2, THEN conjunct2, THEN conjunct2,
      rule_format, OF t]
  show ?thesis
    by (simp add: Let_def initialState_def env_of_def world0_def z)
qed

text \<open>
  C1 as stated fails in the workflow with the parallel step: the report returned for a
  valid input is the parsed report and has no metadata.
\<close>

theorem enrich_report_counterexample:
  "execute (env_of (down_for 0 short_report)) world0 named_input =
     (\<lparr>requests = 1, clock = 0\<rparr>,
      JObj [(''overallScore'', JNum (Fin 70)), (''recommendation'', JStr ''Watchlist'')]) \<and>
   map_of (spread (snd (execute (env_of (down_for 0 short_report)) world0 named_input)))
     ''metadata'' = None"
  by code_simp

section \<open>Properties of batchAnalyze\<close>

lemma batch_loop_results:
  "batch_loop e w h xs acc =
     (case batch_loop e w h xs [] of (w', h', rs) \<Rightarrow> (w', h', acc @ rs))"
proof (induction xs arbitrary: w h acc)
  case Nil
  show ?case by simp
next
  case (Cons x xs)
  obtain w1 h1 r where a: "analyze e w h x = (w1, h1, r)"
    by (cases "analyze e w h x") auto
  show ?case
    using Cons.IH [of w1 h1 "acc @ [to_result x r]"] Cons.IH [of w1 h1 "[to_result x r]"]
    by (simp add: a split: prod.splits)
qed

lemma batch_loop_Cons:
  "batch_loop e w h (x # xs) [] =
     (case analyze e w h x of
        (w1, h1, r) \<Rightarrow>
          (case batch_loop e w1 h1 xs [] of (w', h', rs) \<Rightarrow> (w', h', to_result x r # rs)))"
  using batch_loop_results [of e _ _ xs "[to_result x _]"]
  by (simp split: prod.splits)

lemma batch_length: "length (snd (snd (batch_loop e w h xs []))) = length xs"
proof (induction xs arbitrary: w h)
  case Nil
  show ?case by simp
next
  case (Cons x xs)
  obtain w1 h1 r where a: "analyze e w h x = (w1, h1, r)"
    by (cases "analyze e w h x") auto
  obtain w' h' rs where b: "batch_loop e w1 h1 xs [] = (w', h', rs)"
    by (cases "batch_loop e w1 h1 xs []") auto
  from Cons.IH [of w1 h1] b have "length rs = length xs" by simp
  then show ?case by (simp add: batch_loop_Cons a b del: batch_loop.simps)
qed

lemma batch_nth:
  "i < length xs \<Longrightarrow>
   snd (snd (batch_loop e w h xs [])) ! i =
     (case batch_loop e w h (take i xs) [] of
        (wi, hi, before) \<Rightarrow> to_result (xs ! i) (snd (snd (analyze e wi hi (xs ! i)))))"
proof (induction xs arbitrary: w h i)
  case Nil
  then show ?case by simp
next
  case (Cons x xs)
  obtain w1 h1 r where a: "analyze e w h x = (w1, h1, r)"
    by (cases "analyze e w h x") auto
  obtain w' h' rs where b: "batch_loop e w1 h1 xs [] = (w', h', rs)"
    by (cases "batch_loop e w1 h1 xs []") auto
  show ?case
  proof (cases i)
    case 0
    then show ?thesis by (simp add: batch_loop_Cons a b del: batch_loop.simps(2))
  next
    case (Suc j)
    with Cons.prems have j: "j < length xs" by simp
    obtain wj hj bj where c: "batch_loop e w1 h1 (take j xs) [] = (wj, hj, bj)"
      by (cases "batch_loop e w1 h1 (take j xs) []") auto
    from Cons.IH [OF j, of w1 h1] b c
    have "rs ! j = to_result (xs ! j) (snd (snd (analyze e wj hj (xs ! j))))" by simp
    then show ?thesis by (simp add: Suc batch_loop_Cons a b c del: batch_loop.simps(2))
  qed
qed

lemma analyze_failure_keeps_history:
  "analyze e w h x = (w', h', Inl err) \<Longrightarrow> h' = h"
  by (auto simp: analyze_def Let_def split: if_splits sum.splits prod.splits)

text \<open>
  C9. The batch returns one result for each input, in the order of the inputs. The
  result at index \<open>i\<close> is that of analysing input \<open>i\<close> from the state in which the items
  before it have left the analyzer: the report marked as success, or the message of the
  error with the symbol hint marked as failure, in which case the history is as it was.
\<close>

theorem batchAnalyze_results:
  "(case batchAnalyze e w h xs of
      (w', h', results) \<Rightarrow>
        length results = length xs \<and>
        (\<forall>i<length xs.
           (case batchAnalyze e w h (take i xs) of
              (wi, hi, before) \<Rightarrow>
                (case analyze e wi hi (xs ! i) of
                   (wn, hn, Inr report) \<Rightarrow> results ! i = Succeeded report
                 | (wn, hn, Inl err) \<Rightarrow>
                     results ! i = Failed (message err) (symbol_hint (xs ! i)) \<and> hn = hi))))"
proof -
  obtain w' h' results where r: "batchAnalyze e w h xs = (w', h', results)"
    by (cases "batchAnalyze e w h xs") auto
  have len: "length results = length xs"
    using batch_length [of e w h xs] r by (simp add: batchAnalyze_def)
  have nth: "results ! i =
      (case batchAnalyze e w h (take i xs) of
         (wi, hi, before) \<Rightarrow> to_result (xs ! i) (snd (snd (analyze e wi hi (xs ! i)))))"
    if "i < length xs" for i
    using batch_nth [OF that, of e w h] r by (simp add: batchAnalyze_def)
  show ?thesis
    unfolding r
    by (auto simp: len nth to_result_def split: prod.splits sum.splits
             dest: analyze_failure_keeps_history)
qed

theorem batchAnalyze_results_witness:
  "(case batchAnalyze (env_of (down_for 0 short_report)) world0 []
           [named_input, nameless_input, named_input] of
      (w', h', results) \<Rightarrow>
        length results = 3 \<and> is_success (results ! 0) \<and>
        results ! 1 = Failed (''Input validation failed:'' @ [CHR 0x0A] @ ''stock.name: Required'')
                        (JStr ''TBD'') \<and>
        is_success (results ! 2))"
proof -
  let ?e = "env_of (down_for 0 short_report)"
  let ?xs = "[named_input, nameless_input, named_input]"
  obtain w' h' results where r: "batchAnalyze ?e world0 [] ?xs = (w', h', results)"
    by (cases "batchAnalyze ?e world0 [] ?xs") auto
  have p: "parseJsonResponse short_report =
             Inr (JObj [(''overallScore'', JNum (Fin 70)), (''recommendation'', JStr ''Watchlist'')])"
    by code_simp
  have bad: "snd (snd (analyze ?e w h nameless_input)) =
              Inl (Error (''Input validation failed:'' @ [CHR 0x0A] @ ''stock.name: Required''))"
    for w h
    by (simp add: analyze_def validateInput_def validate_with_def env_of_def nameless_rejected)
  have good: "\<not> isl (snd (snd (analyze ?e w h named_input)))" for w h
    by (simp add: analyze_def validateInput_def validate_with_def env_of_def named_accepted
          named_typed generate_def invokeWithRetry_def
          CONFIG_def retry_loop.simps [of _ _ _ _ 0] down_for_def p get_property_def Let_def)
  have hint: "symbol_hint nameless_input = JStr ''TBD''"
    by (simp add: symbol_hint_def optional_property_def falsy_def nameless_input_def
          input_with_def)
  from batchAnalyze_results [where e = ?e and w = world0 and h = "[]" and xs = ?xs] r
  have len: "length results = 3"
    and each: "\<forall>i<3.
           (case batchAnalyze ?e world0 [] (take i ?xs) of
              (wi, hi, before) \<Rightarrow>
                (case analyze ?e wi hi (?xs ! i) of
                   (wn, hn, Inr report) \<Rightarrow> results ! i = Succeeded report
                 | (wn, hn, Inl err) \<Rightarrow>
                     results ! i = Failed (message err) (symbol_hint (?xs ! i)) \<and> hn = hi))"
    by simp_all
  have r0: "is_success (results ! 0)"
    using each [rule_format, of 0] good
    by (auto simp: is_success_def split: prod.splits sum.splits) (metis isl_def snd_conv)
  have r1: "results ! 1 =
      Failed (''Input validation failed:'' @ [CHR 0x0A] @ ''stock.name: Required'') (JStr ''TBD'')"
    using each [rule_format, of 1] bad hint
    by (auto split: prod.splits sum.splits) (metis message.simps(1) snd_conv sum.inject(1) sum.distinct(1))+
  have r2: "is_success (results ! 2)"
    using each [rule_format, of 2] good
    by (auto simp: is_success_def split: prod.splits sum.splits) (metis isl_def snd_conv)
  show ?thesis
    using len r0 r1 r2 by (simp add: r)
qed

end
